theory Spec2Isabelle
  imports Main
begin

section \<open>Go library functions used by \<open>pkg/skaffold/sync/sync.go\<close>\<close>

text \<open>
  Go strings are byte sequences: \<open>string\<close> (a \<open>char list\<close>). The functions of this
  section are the ones of the Go standard library that \<open>sync.go\<close> calls and whose results
  the destinations depend on (\<open>strings\<close>, \<open>path\<close>, and \<open>path/filepath\<close> on a
  platform whose separator is the slash). \<open>filepath.Rel\<close> and the glob matcher
  \<open>doublestar.PathMatch\<close> are taken as parameters of the functions that call them.
\<close>

subsection \<open>Package \<open>strings\<close>\<close>

definition strings_HasPrefix :: "string \<Rightarrow> string \<Rightarrow> bool" where
  "strings_HasPrefix s prefix \<longleftrightarrow>
     length s \<ge> length prefix \<and> take (length prefix) s = prefix"

definition strings_TrimPrefix :: "string \<Rightarrow> string \<Rightarrow> string" where
  "strings_TrimPrefix s prefix =
     (if strings_HasPrefix s prefix then drop (length prefix) s else s)"

fun strings_Join :: "string list \<Rightarrow> string \<Rightarrow> string" where
  "strings_Join [] sep = []"
| "strings_Join [a] sep = a"
| "strings_Join (a # b # rest) sep = a @ sep @ strings_Join (b # rest) sep"

subsection \<open>Package \<open>path\<close>\<close>

definition path_IsAbs :: "string \<Rightarrow> bool" where
  "path_IsAbs p \<longleftrightarrow> length p > 0 \<and> p ! 0 = CHR ''/''"

text \<open>
  \<open>path.Clean\<close> writes into a buffer \<open>out\<close> (here the bytes written so far, so that
  \<open>out.w\<close> is \<open>length out\<close>) while reading the path from left to right; \<open>dotdot\<close> is
  the index in the buffer below which a \<open>..\<close> element must not backtrack.
  \<open>Clean_backtrack\<close> is the inner loop of the \<open>..\<close> case: after \<open>out.w--\<close> it moves
  \<open>w\<close> down to the previous slash.
\<close>

fun Clean_backtrack :: "string \<Rightarrow> nat \<Rightarrow> nat \<Rightarrow> nat" where
  "Clean_backtrack buf dotdot w =
     (if w > dotdot \<and> buf ! w \<noteq> CHR ''/'' then Clean_backtrack buf dotdot (w - 1) else w)"

declare Clean_backtrack.simps [simp del]

function Clean_loop :: "bool \<Rightarrow> string \<Rightarrow> string \<Rightarrow> nat \<Rightarrow> string" where
  "Clean_loop rooted [] out dotdot = out"
| "Clean_loop rooted (c # rest) out dotdot =
     (if c = CHR ''/'' then
        \<comment> \<open>empty path element\<close>
        Clean_loop rooted rest out dotdot
      else if c = CHR ''.'' \<and> (rest = [] \<or> hd rest = CHR ''/'') then
        \<comment> \<open>\<open>.\<close> element\<close>
        Clean_loop rooted rest out dotdot
      else if c = CHR ''.'' \<and> hd rest = CHR ''.'' \<and> (tl rest = [] \<or> hd (tl rest) = CHR ''/'') then
        \<comment> \<open>\<open>..\<close> element: remove to last slash\<close>
        (if length out > dotdot then
           Clean_loop rooted (tl rest) (take (Clean_backtrack out dotdot (length out - 1)) out) dotdot
         else if \<not> rooted then
           (let out' = (if length out > 0 then out @ ''/'' else out) @ ''..''
            in Clean_loop rooted (tl rest) out' (length out'))
         else Clean_loop rooted (tl rest) out dotdot)
      else
        \<comment> \<open>real path element: add slash if needed, then copy the element\<close>
        (let out' = (if rooted \<and> length out \<noteq> 1 \<or> \<not> rooted \<and> length out \<noteq> 0
                     then out @ ''/'' else out)
         in Clean_loop rooted (dropWhile (\<lambda>x. x \<noteq> CHR ''/'') rest)
              (out' @ c # takeWhile (\<lambda>x. x \<noteq> CHR ''/'') rest) dotdot))"
  by pat_completeness auto
termination
  by (relation "measure (\<lambda>(rooted, p, out, dotdot). length p)")
     (auto simp: less_Suc_eq_le length_dropWhile_le intro: le_trans [OF diff_le_self])

definition path_Clean :: "string \<Rightarrow> string" where
  "path_Clean p =
     (if p = [] then ''.''
      else let rooted = (p ! 0 = CHR ''/'');
               out = (if rooted then Clean_loop rooted (tl p) ''/'' 1
                      else Clean_loop rooted p [] 0)
           in if length out = 0 then ''.'' else out)"

fun path_Join :: "string list \<Rightarrow> string" where
  "path_Join [] = []"
| "path_Join (e # elem) =
     (if e \<noteq> [] then path_Clean (strings_Join (e # elem) ''/'') else path_Join elem)"

subsection \<open>Package \<open>path/filepath\<close>\<close>

definition Separator :: char where
  "Separator = CHR ''/''"

definition filepath_ToSlash :: "string \<Rightarrow> string" where
  "filepath_ToSlash p =
     (if Separator = CHR ''/'' then p
      else map (\<lambda>c. if c = Separator then CHR ''/'' else c) p)"

definition filepath_FromSlash :: "string \<Rightarrow> string" where
  "filepath_FromSlash p =
     (if Separator = CHR ''/'' then p
      else map (\<lambda>c. if c = CHR ''/'' then Separator else c) p)"

subsection \<open>Errors\<close>

text \<open>
  An \<open>error\<close> is either a plain message (\<open>errors.New\<close>, \<open>fmt.Errorf\<close>, and the errors
  of the collaborators) or an error wrapped with a message (\<open>errors.Wrap\<close>,
  \<open>errors.Wrapf\<close>), whose text is the message, a colon and the text of its cause.
\<close>

datatype error = New string | Wrap error string

fun Error :: "error \<Rightarrow> string" where
  "Error (New msg) = msg"
| "Error (Wrap cause msg) = msg @ '': '' @ Error cause"

section \<open>Data model\<close>

record SyncRule =
  Src :: string
  Dest :: string
  Strip :: string

type_synonym syncMap = "string \<rightharpoonup> string list"

section \<open>The rule matcher\<close>

text \<open>
  \<open>matchSyncRules\<close> appends one destination for every rule whose source pattern matches
  \<open>relPath\<close>, in the order of the rules, and stops with a wrapped error at the first
  pattern test that fails. \<open>PathMatch\<close> stands for \<open>doublestar.PathMatch\<close>. The rules
  are the values the pointers of the slice point to; the configuration holds no nil rule.
\<close>

fun matchSyncRules_loop ::
  "(string \<Rightarrow> string \<Rightarrow> error + bool) \<Rightarrow> SyncRule list \<Rightarrow> string \<Rightarrow> string \<Rightarrow> string list
     \<Rightarrow> error + string list" where
  "matchSyncRules_loop PathMatch [] relPath containerWd dsts = Inr dsts"
| "matchSyncRules_loop PathMatch (r # syncRules) relPath containerWd dsts =
     (case PathMatch (filepath_FromSlash (Src r)) relPath of
        Inl err \<Rightarrow> Inl (Wrap err (''pattern error for '' @ relPath))
      | Inr matches \<Rightarrow>
          if \<not> matches then matchSyncRules_loop PathMatch syncRules relPath containerWd dsts
          else
            (let wd = (if \<not> path_IsAbs (Dest r) then containerWd else []);
                 subPath = strings_TrimPrefix (filepath_ToSlash relPath) (Strip r)
             in matchSyncRules_loop PathMatch syncRules relPath containerWd
                  (dsts @ [path_Join [wd, Dest r, subPath]])))"

definition matchSyncRules ::
  "(string \<Rightarrow> string \<Rightarrow> error + bool) \<Rightarrow> SyncRule list \<Rightarrow> string \<Rightarrow> string
     \<Rightarrow> error + string list" where
  "matchSyncRules PathMatch syncRules relPath containerWd =
     matchSyncRules_loop PathMatch syncRules relPath containerWd []"

section \<open>The plan intersector\<close>

text \<open>
  \<open>intersect\<close> returns a sync map, the pair \<open>(nil, nil)\<close> (here \<open>Inr None\<close>) or an
  error. The map \<open>ret\<close> is made before the loop, so a run over no files returns the
  empty map, which is not \<open>nil\<close>. \<open>Rel\<close> stands for \<open>filepath.Rel\<close>.
\<close>

fun intersect_loop ::
  "(string \<Rightarrow> string \<Rightarrow> error + string) \<Rightarrow> (string \<Rightarrow> string \<Rightarrow> error + bool)
     \<Rightarrow> string \<Rightarrow> string \<Rightarrow> SyncRule list \<Rightarrow> string list \<Rightarrow> syncMap
     \<Rightarrow> error + syncMap option" where
  "intersect_loop Rel PathMatch contextWd containerWd syncRules [] ret = Inr (Some ret)"
| "intersect_loop Rel PathMatch contextWd containerWd syncRules (f # files) ret =
     (case Rel contextWd f of
        Inl err \<Rightarrow>
          Inl (Wrap err (''changed file '' @ f @ '' can't be found relative to context '' @ contextWd))
      | Inr relPath \<Rightarrow>
          (case matchSyncRules PathMatch syncRules relPath containerWd of
             Inl err \<Rightarrow> Inl err
           | Inr dsts \<Rightarrow>
               if length dsts = 0 then Inr None
               else intersect_loop Rel PathMatch contextWd containerWd syncRules files
                      (ret(f \<mapsto> dsts))))"

definition intersect ::
  "(string \<Rightarrow> string \<Rightarrow> error + string) \<Rightarrow> (string \<Rightarrow> string \<Rightarrow> error + bool)
     \<Rightarrow> string \<Rightarrow> string \<Rightarrow> SyncRule list \<Rightarrow> string list \<Rightarrow> error + syncMap option" where
  "intersect Rel PathMatch contextWd containerWd syncRules files =
     intersect_loop Rel PathMatch contextWd containerWd syncRules files Map.empty"

section \<open>The tag resolver\<close>

text \<open>
  Modelled from the spec: the declaration of \<open>build.Artifact\<close> is not among the given
  sources; it is the spec's BuildArtifact \<open>{imageName, tag}\<close>, the two fields
  \<open>latestTag\<close> reads.
\<close>

record build_Artifact =
  build_ImageName :: string
  Tag :: string

fun latestTag :: "string \<Rightarrow> build_Artifact list \<Rightarrow> string" where
  "latestTag img [] = []"
| "latestTag img (build # builds) =
     (if build_ImageName build = img then Tag build else latestTag img builds)"

text \<open>The verb \<open>%v\<close> of \<open>fmt\<close> on a slice of such structs: \<open>[{name tag} {name tag}]\<close>.\<close>

definition fmt_builds :: "build_Artifact list \<Rightarrow> string" where
  "fmt_builds builds =
     ''['' @ strings_Join (map (\<lambda>b. ''{'' @ build_ImageName b @ '' '' @ Tag b @ ''}'') builds) '' ''
       @ '']''"

section \<open>The plan builder\<close>

text \<open>
  Modelled from the spec: \<open>latest.Artifact\<close>, \<open>latest.Sync\<close> and \<open>watch.Events\<close> are
  declared outside the given sources. The records hold the fields \<open>NewItem\<close> reads; a
  \<open>nil\<close> \<open>a.Sync\<close> is \<open>None\<close>. \<open>e.HasChanged()\<close> is the spec's derived
  \<open>hasChanged\<close> flag of the change batch, a field of the record here.
\<close>

record Sync =
  Manual :: "SyncRule list"

record Artifact =
  ImageName :: string
  Workspace :: string
  Sync :: "Sync option"

record Events =
  Added :: "string list"
  Modified :: "string list"
  Deleted :: "string list"
  HasChanged :: bool

record Item =
  Item_Image :: string
  Copy :: syncMap
  Delete :: syncMap

text \<open>
  \<open>NewItem\<close> returns \<open>(*Item, error)\<close>: an error is \<open>Inl\<close>, the pair \<open>(nil, nil)\<close>
  is \<open>Inr None\<close>, a plan is \<open>Inr (Some item)\<close>. Next to its result the model returns the
  calls \<open>NewItem\<close> made, in order, so that a statement can say which resolvers ran.
  \<open>WorkingDir\<close> is the package variable of that name.
\<close>

datatype call =
  LatestTagCall string
| WorkingDirCall string
| IntersectCall "string list"

definition NewItem ::
  "(string \<Rightarrow> (string \<rightharpoonup> bool) \<Rightarrow> error + string)
     \<Rightarrow> (string \<Rightarrow> string \<Rightarrow> error + string) \<Rightarrow> (string \<Rightarrow> string \<Rightarrow> error + bool)
     \<Rightarrow> Artifact \<Rightarrow> Events \<Rightarrow> build_Artifact list \<Rightarrow> (string \<rightharpoonup> bool)
     \<Rightarrow> (error + Item option) \<times> call list" where
  "NewItem WorkingDir Rel PathMatch a e builds insecureRegistries =
     (if \<not> HasChanged e then (Inr None, [])
      else case Sync a of
        None \<Rightarrow> (Inr None, [])
      | Some sync \<Rightarrow>
          if length (Manual sync) = 0 then (Inr None, [])
          else
            (let tag = latestTag (ImageName a) builds;
                 calls1 = [LatestTagCall (ImageName a)]
             in if tag = [] then
                  (Inl (New (''could not find latest tag for image '' @ ImageName a
                               @ '' in builds: '' @ fmt_builds builds)), calls1)
                else
                  (let calls2 = calls1 @ [WorkingDirCall tag]
                   in case WorkingDir tag insecureRegistries of
                     Inl err \<Rightarrow> (Inl (Wrap err (''retrieving working dir for '' @ tag)), calls2)
                   | Inr containerWd \<Rightarrow>
                       (let calls3 = calls2 @ [IntersectCall (Added e @ Modified e)]
                        in case intersect Rel PathMatch (Workspace a) containerWd (Manual sync)
                                  (Added e @ Modified e) of
                          Inl err \<Rightarrow>
                            (Inl (Wrap err ''intersecting sync map and added, modified files''), calls3)
                        | Inr toCopy \<Rightarrow>
                            (let calls4 = calls3 @ [IntersectCall (Deleted e)]
                             in case intersect Rel PathMatch (Workspace a) containerWd (Manual sync)
                                       (Deleted e) of
                               Inl err \<Rightarrow>
                                 (Inl (Wrap err ''intersecting sync map and deleted files''), calls4)
                             | Inr toDelete \<Rightarrow>
                                 \<comment> \<open>Something went wrong, don't sync, rebuild.\<close>
                                 (case (toCopy, toDelete) of
                                    (Some copy, Some delete) \<Rightarrow>
                                      (Inr (Some \<lparr>Item_Image = tag, Copy = copy, Delete = delete\<rparr>),
                                       calls4)
                                  | _ \<Rightarrow> (Inr None, calls4)))))))"

section \<open>The plan executor\<close>

text \<open>
  The pod and container types are those of the cluster API; the
  records hold the fields \<open>Perform\<close> reads (\<open>p.Spec.Containers\<close>, \<open>c.Image\<close>) and a
  name each. An operation (\<open>*exec.Cmd\<close>) is a value of any type \<open>'c\<close>; running one
  (\<open>util.RunCmdOut\<close>) takes the state \<open>'w\<close> of the containers to a new state and may
  fail. \<open>Client\<close> is the result of \<open>kubernetes.Client()\<close>: an error, or the function
  that lists the pods of a namespace. The counter \<open>numSynced\<close> is a natural number: the
  number of operations of one call stays far below the range of a Go \<open>int\<close>.
\<close>

record Container =
  Container_Name :: string
  Container_Image :: string

record Pod =
  Pod_Name :: string
  Containers :: "Container list"

fun run_cmds ::
  "('c \<Rightarrow> 'w \<Rightarrow> error option \<times> 'w) \<Rightarrow> 'c list \<Rightarrow> nat \<Rightarrow> 'w \<Rightarrow> error option \<times> nat \<times> 'w" where
  "run_cmds RunCmdOut [] numSynced w = (None, numSynced, w)"
| "run_cmds RunCmdOut (cmd # cmds) numSynced w =
     (case RunCmdOut cmd w of
        (Some err, w') \<Rightarrow> (Some err, numSynced, w')
      | (None, w') \<Rightarrow> run_cmds RunCmdOut cmds (numSynced + 1) w')"

fun containers_loop ::
  "('c \<Rightarrow> 'w \<Rightarrow> error option \<times> 'w) \<Rightarrow> string \<Rightarrow> syncMap
     \<Rightarrow> (Pod \<Rightarrow> Container \<Rightarrow> syncMap \<Rightarrow> 'c list) \<Rightarrow> Pod \<Rightarrow> Container list \<Rightarrow> nat \<Rightarrow> 'w
     \<Rightarrow> error option \<times> nat \<times> 'w" where
  "containers_loop RunCmdOut img files cmdFn p [] numSynced w = (None, numSynced, w)"
| "containers_loop RunCmdOut img files cmdFn p (c # cs) numSynced w =
     (if Container_Image c \<noteq> img then
        containers_loop RunCmdOut img files cmdFn p cs numSynced w
      else
        (case run_cmds RunCmdOut (cmdFn p c files) numSynced w of
           (Some err, numSynced', w') \<Rightarrow> (Some err, numSynced', w')
         | (None, numSynced', w') \<Rightarrow>
             containers_loop RunCmdOut img files cmdFn p cs numSynced' w'))"

fun pods_loop ::
  "('c \<Rightarrow> 'w \<Rightarrow> error option \<times> 'w) \<Rightarrow> string \<Rightarrow> syncMap
     \<Rightarrow> (Pod \<Rightarrow> Container \<Rightarrow> syncMap \<Rightarrow> 'c list) \<Rightarrow> Pod list \<Rightarrow> nat \<Rightarrow> 'w
     \<Rightarrow> error option \<times> nat \<times> 'w" where
  "pods_loop RunCmdOut img files cmdFn [] numSynced w = (None, numSynced, w)"
| "pods_loop RunCmdOut img files cmdFn (p # ps) numSynced w =
     (case containers_loop RunCmdOut img files cmdFn p (Containers p) numSynced w of
        (Some err, numSynced', w') \<Rightarrow> (Some err, numSynced', w')
      | (None, numSynced', w') \<Rightarrow> pods_loop RunCmdOut img files cmdFn ps numSynced' w')"

fun namespaces_loop ::
  "(string \<Rightarrow> error + Pod list) \<Rightarrow> ('c \<Rightarrow> 'w \<Rightarrow> error option \<times> 'w) \<Rightarrow> string \<Rightarrow> syncMap
     \<Rightarrow> (Pod \<Rightarrow> Container \<Rightarrow> syncMap \<Rightarrow> 'c list) \<Rightarrow> string list \<Rightarrow> nat \<Rightarrow> 'w
     \<Rightarrow> error option \<times> nat \<times> 'w" where
  "namespaces_loop listPods RunCmdOut img files cmdFn [] numSynced w = (None, numSynced, w)"
| "namespaces_loop listPods RunCmdOut img files cmdFn (ns # namespaces) numSynced w =
     (case listPods ns of
        Inl err \<Rightarrow> (Some (Wrap err (''getting pods for namespace '' @ ns)), numSynced, w)
      | Inr pods \<Rightarrow>
          (case pods_loop RunCmdOut img files cmdFn pods numSynced w of
             (Some err, numSynced', w') \<Rightarrow> (Some err, numSynced', w')
           | (None, numSynced', w') \<Rightarrow>
               namespaces_loop listPods RunCmdOut img files cmdFn namespaces numSynced' w'))"

definition Perform ::
  "(error + (string \<Rightarrow> error + Pod list)) \<Rightarrow> ('c \<Rightarrow> 'w \<Rightarrow> error option \<times> 'w) \<Rightarrow> string
     \<Rightarrow> syncMap \<Rightarrow> (Pod \<Rightarrow> Container \<Rightarrow> syncMap \<Rightarrow> 'c list) \<Rightarrow> string list \<Rightarrow> 'w
     \<Rightarrow> error option \<times> 'w" where
  "Perform Client RunCmdOut img files cmdFn namespaces w =
     (if dom files = {} then (None, w)
      else case Client of
        Inl err \<Rightarrow> (Some (Wrap err ''getting k8s client''), w)
      | Inr listPods \<Rightarrow>
          (case namespaces_loop listPods RunCmdOut img files cmdFn namespaces 0 w of
             (Some err, numSynced, w') \<Rightarrow> (Some err, w')
           | (None, numSynced, w') \<Rightarrow>
               if numSynced = 0 then (Some (New ''didn't sync any files''), w') else (None, w')))"

section \<open>Definitions used to state the properties\<close>

text \<open>
  The destination of one matching rule, in the words of the specification: the rule's
  destination, prefixed with the container working directory exactly when it is not
  absolute; the relative path without the literal prefix \<open>Strip\<close>, or the whole relative
  path when it does not start with it; the second joined onto the first.
\<close>

definition rule_destination :: "SyncRule \<Rightarrow> string \<Rightarrow> string \<Rightarrow> string" where
  "rule_destination r relPath containerWd =
     path_Join ((if path_IsAbs (Dest r) then [Dest r] else [containerWd, Dest r])
                @ [if strings_HasPrefix relPath (Strip r) then drop (length (Strip r)) relPath
                   else relPath])"

text \<open>
  The outcome of testing one rule's source pattern against a relative path, as
  \<open>matchSyncRules\<close> does it: the test fails (the pattern is malformed), or the rule
  matches.
\<close>

definition pattern_error :: "(string \<Rightarrow> string \<Rightarrow> error + bool) \<Rightarrow> SyncRule \<Rightarrow> string \<Rightarrow> bool" where
  "pattern_error PathMatch r relPath \<longleftrightarrow> isl (PathMatch (filepath_FromSlash (Src r)) relPath)"

definition rule_matches :: "(string \<Rightarrow> string \<Rightarrow> error + bool) \<Rightarrow> SyncRule \<Rightarrow> string \<Rightarrow> bool" where
  "rule_matches PathMatch r relPath \<longleftrightarrow>
     PathMatch (filepath_FromSlash (Src r)) relPath = Inr True"

text \<open>
  What \<open>intersect\<close> finds for one changed path \<open>f\<close>: the path is made relative
  to the workspace and tested against every rule. It matches no rule (every test succeeds
  and answers no), it gets through without an error (it can be made relative and no test
  fails), or it resolves to destinations (no error, and at least one rule matches).
\<close>

definition matches_no_rule ::
  "(string \<Rightarrow> string \<Rightarrow> error + string) \<Rightarrow> (string \<Rightarrow> string \<Rightarrow> error + bool)
     \<Rightarrow> string \<Rightarrow> SyncRule list \<Rightarrow> string \<Rightarrow> bool" where
  "matches_no_rule Rel PathMatch contextWd syncRules f \<longleftrightarrow>
     (case Rel contextWd f of
        Inl err \<Rightarrow> False
      | Inr relPath \<Rightarrow>
          list_all (\<lambda>r. \<not> pattern_error PathMatch r relPath \<and> \<not> rule_matches PathMatch r relPath)
            syncRules)"

definition without_error ::
  "(string \<Rightarrow> string \<Rightarrow> error + string) \<Rightarrow> (string \<Rightarrow> string \<Rightarrow> error + bool)
     \<Rightarrow> string \<Rightarrow> SyncRule list \<Rightarrow> string \<Rightarrow> bool" where
  "without_error Rel PathMatch contextWd syncRules f \<longleftrightarrow>
     (case Rel contextWd f of
        Inl err \<Rightarrow> False
      | Inr relPath \<Rightarrow> list_all (\<lambda>r. \<not> pattern_error PathMatch r relPath) syncRules)"

definition resolves ::
  "(string \<Rightarrow> string \<Rightarrow> error + string) \<Rightarrow> (string \<Rightarrow> string \<Rightarrow> error + bool)
     \<Rightarrow> string \<Rightarrow> SyncRule list \<Rightarrow> string \<Rightarrow> bool" where
  "resolves Rel PathMatch contextWd syncRules f \<longleftrightarrow>
     (case Rel contextWd f of
        Inl err \<Rightarrow> False
      | Inr relPath \<Rightarrow>
          list_all (\<lambda>r. \<not> pattern_error PathMatch r relPath) syncRules
          \<and> list_ex (\<lambda>r. rule_matches PathMatch r relPath) syncRules)"

text \<open>
  \<open>NewItem\<close> gets past its guards: the batch has changes and the artifact declares at
  least one manual sync rule.
\<close>

definition past_guards :: "Artifact \<Rightarrow> Events \<Rightarrow> bool" where
  "past_guards a e \<longleftrightarrow>
     HasChanged e \<and> (case Sync a of None \<Rightarrow> False | Some sync \<Rightarrow> Manual sync \<noteq> [])"

text \<open>The manual sync rules an artifact declares; none when it has no sync section.\<close>

definition manual_rules :: "Artifact \<Rightarrow> SyncRule list" where
  "manual_rules a = (case Sync a of None \<Rightarrow> [] | Some sync \<Rightarrow> Manual sync)"

text \<open>
  The operations \<open>Perform\<close> generates, in the order of the specification: for each
  namespace, for each pod listed there, for each container whose image equals the target,
  the operations of the command generator. A namespace whose listing fails ends the call,
  so the sequence stops before it.
\<close>

definition container_ops ::
  "string \<Rightarrow> syncMap \<Rightarrow> (Pod \<Rightarrow> Container \<Rightarrow> syncMap \<Rightarrow> 'c list) \<Rightarrow> Pod \<Rightarrow> Container list
     \<Rightarrow> 'c list" where
  "container_ops img files cmdFn p cs =
     concat (map (\<lambda>c. cmdFn p c files) (filter (\<lambda>c. Container_Image c = img) cs))"

definition pod_ops ::
  "string \<Rightarrow> syncMap \<Rightarrow> (Pod \<Rightarrow> Container \<Rightarrow> syncMap \<Rightarrow> 'c list) \<Rightarrow> Pod list \<Rightarrow> 'c list" where
  "pod_ops img files cmdFn pods =
     concat (map (\<lambda>p. container_ops img files cmdFn p (Containers p)) pods)"

fun generated_ops ::
  "(string \<Rightarrow> error + Pod list) \<Rightarrow> string \<Rightarrow> syncMap
     \<Rightarrow> (Pod \<Rightarrow> Container \<Rightarrow> syncMap \<Rightarrow> 'c list) \<Rightarrow> string list \<Rightarrow> 'c list" where
  "generated_ops listPods img files cmdFn [] = []"
| "generated_ops listPods img files cmdFn (ns # namespaces) =
     (case listPods ns of
        Inl err \<Rightarrow> []
      | Inr pods \<Rightarrow>
          pod_ops img files cmdFn pods @ generated_ops listPods img files cmdFn namespaces)"

text \<open>
  Operations that all succeed when run in order from the state \<open>w\<close>, and the state
  they leave.
\<close>

fun succeed_in_order :: "('c \<Rightarrow> 'w \<Rightarrow> error option \<times> 'w) \<Rightarrow> 'c list \<Rightarrow> 'w \<Rightarrow> 'w option" where
  "succeed_in_order RunCmdOut [] w = Some w"
| "succeed_in_order RunCmdOut (cmd # cmds) w =
     (case RunCmdOut cmd w of
        (Some err, w') \<Rightarrow> None
      | (None, w') \<Rightarrow> succeed_in_order RunCmdOut cmds w')"

text \<open>
  Every namespace is listed, and no container generates an operation: either its image
  is not the target, or the command generator returns no operation for it.
\<close>

definition no_operations ::
  "(string \<Rightarrow> error + Pod list) \<Rightarrow> string \<Rightarrow> syncMap
     \<Rightarrow> (Pod \<Rightarrow> Container \<Rightarrow> syncMap \<Rightarrow> 'c list) \<Rightarrow> string list \<Rightarrow> bool" where
  "no_operations listPods img files cmdFn namespaces \<longleftrightarrow>
     list_all (\<lambda>ns. case listPods ns of
                       Inl err \<Rightarrow> False
                     | Inr pods \<Rightarrow>
                         list_all (\<lambda>p. list_all (\<lambda>c. Container_Image c \<noteq> img
                                                      \<or> cmdFn p c files = [])
                                          (Containers p)) pods)
       namespaces"

subsection \<open>Test doubles\<close>

text \<open>
  The collaborators of the examples below. \<open>stub_PathMatch\<close> answers for the pairs of
  pattern and path the examples use: the pattern \<open>[*.html\<close> is malformed (an unclosed
  character class), the listed pairs match, every other pair does not.
  \<open>stub_Rel\<close> makes the paths below the workspace \<open>node\<close> relative to it and
  rejects every other path, as \<open>filepath.Rel\<close> rejects an absolute path against a
  relative base. \<open>stub_WorkingDir\<close> knows the working directory of one image.
\<close>

definition stub_PathMatch :: "string \<Rightarrow> string \<Rightarrow> error + bool" where
  "stub_PathMatch pattern name =
     (if pattern = ''[*.html'' then Inl (New ''syntax error in pattern'')
      else Inr ((pattern, name) \<in> set
        [(''src/**/*.js'', ''src/a/b.js''), (''**/*.js'', ''src/a/b.js''),
         (''**/*'', ''x/y.txt''), (''*.js'', ''index.js'')]))"

definition stub_Rel :: "string \<Rightarrow> string \<Rightarrow> error + string" where
  "stub_Rel basepath targpath =
     (if basepath = ''node'' \<and> strings_HasPrefix targpath ''node/''
      then Inr (drop 5 targpath)
      else Inl (New (''Rel: can't make '' @ targpath @ '' relative to '' @ basepath)))"

definition stub_WorkingDir :: "string \<Rightarrow> (string \<rightharpoonup> bool) \<Rightarrow> error + string" where
  "stub_WorkingDir tag insecureRegistries =
     (if tag = ''node-example:v1'' then Inr ''/home/app''
      else Inl (New (''no such image: '' @ tag)))"

definition stub_rules :: "SyncRule list" where
  "stub_rules = [\<lparr>Src = ''*.js'', Dest = ''.'', Strip = []\<rparr>]"

definition stub_artifact :: Artifact where
  "stub_artifact =
     \<lparr>ImageName = ''node-example'', Workspace = ''node'',
      Sync = Some \<lparr>Manual = stub_rules\<rparr>\<rparr>"

definition stub_builds :: "build_Artifact list" where
  "stub_builds =
     [\<lparr>build_ImageName = ''other'', Tag = ''other:v7''\<rparr>,
      \<lparr>build_ImageName = ''node-example'', Tag = ''node-example:v1''\<rparr>,
      \<lparr>build_ImageName = ''node-example'', Tag = ''node-example:v0''\<rparr>]"

text \<open>
  Change batches: one whose only file matches the rule; one whose added file matches no
  rule while its deleted file is outside the workspace; one with a file that matches the
  rule and a file that matches no rule; one for an artifact whose only rule has a
  malformed pattern.
\<close>

definition stub_events :: Events where
  "stub_events = \<lparr>Added = [''node/index.js''], Modified = [], Deleted = [], HasChanged = True\<rparr>"

definition stub_events_miss :: Events where
  "stub_events_miss =
     \<lparr>Added = [''node/README.md''], Modified = [], Deleted = [''/tmp/gone.js''],
      HasChanged = True\<rparr>"

definition stub_events_partial :: Events where
  "stub_events_partial =
     \<lparr>Added = [''node/index.js''], Modified = [''node/README.md''], Deleted = [],
      HasChanged = True\<rparr>"

definition stub_events_html :: Events where
  "stub_events_html =
     \<lparr>Added = [], Modified = [''node/index.html''], Deleted = [], HasChanged = True\<rparr>"

definition stub_artifact_bad :: Artifact where
  "stub_artifact_bad =
     \<lparr>ImageName = ''node-example'', Workspace = ''node'',
      Sync = Some \<lparr>Manual = [\<lparr>Src = ''[*.html'', Dest = ''.'', Strip = []\<rparr>]\<rparr>\<rparr>"

text \<open>
  A cluster of one namespace with one pod of two containers, one of which runs the
  target image. The state of the containers is the list of the operations applied so far;
  the operation \<open>fail\<close> fails, every other one succeeds.
\<close>

definition stub_pods :: "string \<Rightarrow> error + Pod list" where
  "stub_pods ns =
     (if ns = ''default'' then
        Inr [\<lparr>Pod_Name = ''web'', Containers =
               [\<lparr>Container_Name = ''sidecar'', Container_Image = ''envoy:v2''\<rparr>,
                \<lparr>Container_Name = ''app'', Container_Image = ''node-example:v1''\<rparr>]\<rparr>]
      else if ns = ''empty'' then Inr []
      else Inl (New (''namespace not found: '' @ ns)))"

definition stub_RunCmdOut :: "string \<Rightarrow> string list \<Rightarrow> error option \<times> string list" where
  "stub_RunCmdOut cmd w =
     (if cmd = ''fail'' then (Some (New ''exit status 1''), w @ [cmd]) else (None, w @ [cmd]))"

definition stub_cmdFn :: "string list \<Rightarrow> Pod \<Rightarrow> Container \<Rightarrow> syncMap \<Rightarrow> string list" where
  "stub_cmdFn cmds p c files = cmds"

definition stub_files :: syncMap where
  "stub_files = [''node/index.js'' \<mapsto> [''/home/app/index.js'']]"

section \<open>Library facts\<close>

lemma filepath_ToSlash_id [simp]: "filepath_ToSlash p = p"
  by (simp add: filepath_ToSlash_def Separator_def)

lemma filepath_FromSlash_id [simp]: "filepath_FromSlash p = p"
  by (simp add: filepath_FromSlash_def Separator_def)

lemma strings_HasPrefix_append: "strings_HasPrefix s prefix \<longleftrightarrow> (\<exists>rest. s = prefix @ rest)"
proof
  assume "strings_HasPrefix s prefix"
  then have "s = prefix @ drop (length prefix) s"
    by (metis append_take_drop_id strings_HasPrefix_def)
  then show "\<exists>rest. s = prefix @ rest" ..
next
  assume "\<exists>rest. s = prefix @ rest"
  then show "strings_HasPrefix s prefix"
    by (auto simp: strings_HasPrefix_def)
qed

lemma strings_TrimPrefix_append [simp]: "strings_TrimPrefix (prefix @ rest) prefix = rest"
  by (simp add: strings_TrimPrefix_def strings_HasPrefix_def)

lemma strings_TrimPrefix_fallback:
  "(\<And>rest. s \<noteq> prefix @ rest) \<Longrightarrow> strings_TrimPrefix s prefix = s"
  by (auto simp: strings_TrimPrefix_def strings_HasPrefix_append)

lemma path_Join_skip_empty: "path_Join ([] # elem) = path_Join elem"
  by simp

lemma latestTag_find:
  "latestTag img builds =
     (case find (\<lambda>b. build_ImageName b = img) builds of None \<Rightarrow> [] | Some b \<Rightarrow> Tag b)"
  by (induction builds) auto

section \<open>The rule matcher: one destination per matching rule, in order\<close>

lemma matchSyncRules_loop_filter:
  assumes "\<forall>r\<in>set syncRules. \<not> pattern_error PathMatch r relPath"
  shows "matchSyncRules_loop PathMatch syncRules relPath containerWd dsts =
           Inr (dsts @ map (\<lambda>r. rule_destination r relPath containerWd)
                         (filter (\<lambda>r. rule_matches PathMatch r relPath) syncRules))"
  using assms
proof (induction syncRules arbitrary: dsts)
  case Nil
  then show ?case by simp
next
  case (Cons r syncRules)
  then obtain b where b: "PathMatch (Src r) relPath = Inr b"
    by (cases "PathMatch (Src r) relPath") (simp_all add: pattern_error_def)
  have rest: "\<forall>r\<in>set syncRules. \<not> pattern_error PathMatch r relPath"
    using Cons.prems by simp
  show ?case
  proof (cases b)
    case True
    have "path_Join [if \<not> path_IsAbs (Dest r) then containerWd else [], Dest r,
                     strings_TrimPrefix relPath (Strip r)]
          = rule_destination r relPath containerWd"
      by (simp add: rule_destination_def strings_TrimPrefix_def del: path_Join.simps
            add: path_Join_skip_empty)
    with True b Cons.IH [OF rest] show ?thesis
      by (simp add: rule_matches_def del: path_Join.simps)
  next
    case False
    with b Cons.IH [OF rest] show ?thesis
      by (simp add: rule_matches_def)
  qed
qed

lemma matchSyncRules_filter:
  assumes "\<forall>r\<in>set syncRules. \<not> pattern_error PathMatch r relPath"
  shows "matchSyncRules PathMatch syncRules relPath containerWd =
           Inr (map (\<lambda>r. rule_destination r relPath containerWd)
                  (filter (\<lambda>r. rule_matches PathMatch r relPath) syncRules))"
  unfolding matchSyncRules_def
  by (subst matchSyncRules_loop_filter [OF assms]) simp

lemma matchSyncRules_loop_error:
  assumes "r \<in> set syncRules" and "pattern_error PathMatch r relPath"
  shows "\<exists>cause. matchSyncRules_loop PathMatch syncRules relPath containerWd dsts =
           Inl (Wrap cause (''pattern error for '' @ relPath))"
  using assms
proof (induction syncRules arbitrary: dsts)
  case Nil
  then show ?case by simp
next
  case (Cons r' syncRules)
  show ?case
  proof (cases "PathMatch (Src r') relPath")
    case (Inl e)
    then show ?thesis by simp
  next
    case (Inr b)
    with Cons.prems have "r \<in> set syncRules"
      by (auto simp: pattern_error_def)
    from Cons.IH [OF this Cons.prems(2)] Inr show ?thesis
      by (simp add: Let_def del: path_Join.simps)
  qed
qed

lemma matchSyncRules_error:
  assumes "r \<in> set syncRules" and "pattern_error PathMatch r relPath"
  shows "\<exists>cause. matchSyncRules PathMatch syncRules relPath containerWd =
           Inl (Wrap cause (''pattern error for '' @ relPath))"
  unfolding matchSyncRules_def using assms by (rule matchSyncRules_loop_error)

lemma matchSyncRules_loop_empty_iff:
  "matchSyncRules_loop PathMatch syncRules relPath containerWd dsts = Inr [] \<longleftrightarrow>
     dsts = [] \<and> (\<forall>r\<in>set syncRules. PathMatch (Src r) relPath = Inr False)"
  by (induction syncRules arbitrary: dsts)
     (auto simp: Let_def split: sum.splits simp del: path_Join.simps)

lemma matchSyncRules_empty_iff:
  "matchSyncRules PathMatch syncRules relPath containerWd = Inr [] \<longleftrightarrow>
     (\<forall>r\<in>set syncRules. \<not> pattern_error PathMatch r relPath \<and> \<not> rule_matches PathMatch r relPath)"
proof -
  have "PathMatch (Src r) relPath = Inr False \<longleftrightarrow>
          \<not> pattern_error PathMatch r relPath \<and> \<not> rule_matches PathMatch r relPath" for r
    by (cases "PathMatch (Src r) relPath") (auto simp: pattern_error_def rule_matches_def)
  then show ?thesis
    by (simp add: matchSyncRules_def matchSyncRules_loop_empty_iff)
qed

section \<open>The plan intersector: all or nothing\<close>

lemma matchSyncRules_Inr:
  assumes "matchSyncRules PathMatch syncRules relPath containerWd = Inr dsts"
  shows "list_all (\<lambda>r. \<not> pattern_error PathMatch r relPath) syncRules"
    and "dsts = map (\<lambda>r. rule_destination r relPath containerWd)
                  (filter (\<lambda>r. rule_matches PathMatch r relPath) syncRules)"
proof -
  have ok: "\<forall>r\<in>set syncRules. \<not> pattern_error PathMatch r relPath"
  proof (intro ballI notI)
    fix r
    assume "r \<in> set syncRules" and "pattern_error PathMatch r relPath"
    from matchSyncRules_error [OF this, of containerWd] assms show False
      by auto
  qed
  then show "list_all (\<lambda>r. \<not> pattern_error PathMatch r relPath) syncRules"
    by (simp add: list_all_iff)
  from matchSyncRules_filter [OF ok, of containerWd] assms
  show "dsts = map (\<lambda>r. rule_destination r relPath containerWd)
                  (filter (\<lambda>r. rule_matches PathMatch r relPath) syncRules)"
    by simp
qed

lemma matchSyncRules_nonempty:
  assumes "matchSyncRules PathMatch syncRules relPath containerWd = Inr dsts" and "dsts \<noteq> []"
  shows "list_ex (\<lambda>r. rule_matches PathMatch r relPath) syncRules"
proof -
  from matchSyncRules_Inr(2) [OF assms(1)] assms(2)
  have "filter (\<lambda>r. rule_matches PathMatch r relPath) syncRules \<noteq> []"
    by auto
  then show ?thesis
    by (auto simp: list_ex_iff filter_empty_conv)
qed

lemma matchSyncRules_no_error:
  assumes "list_all (\<lambda>r. \<not> pattern_error PathMatch r relPath) syncRules"
  shows "\<exists>dsts. matchSyncRules PathMatch syncRules relPath containerWd = Inr dsts
           \<and> (dsts = [] \<longleftrightarrow> \<not> list_ex (\<lambda>r. rule_matches PathMatch r relPath) syncRules)"
proof -
  from assms have "\<forall>r\<in>set syncRules. \<not> pattern_error PathMatch r relPath"
    by (simp add: list_all_iff)
  from matchSyncRules_filter [OF this, of containerWd] show ?thesis
    by (auto simp: list_ex_iff filter_empty_conv)
qed

lemma matchSyncRules_miss:
  assumes "list_all (\<lambda>r. \<not> pattern_error PathMatch r relPath \<and> \<not> rule_matches PathMatch r relPath)
             syncRules"
  shows "matchSyncRules PathMatch syncRules relPath containerWd = Inr []"
  using assms by (simp add: matchSyncRules_empty_iff list_all_iff)

lemma intersect_loop_Cons_plan:
  assumes "intersect_loop Rel PathMatch contextWd containerWd syncRules (f # files) ret
             = Inr (Some m)"
  shows "\<exists>dsts. dsts \<noteq> [] \<and> resolves Rel PathMatch contextWd syncRules f
           \<and> intersect_loop Rel PathMatch contextWd containerWd syncRules files (ret(f \<mapsto> dsts))
               = Inr (Some m)"
proof -
  from assms obtain relPath where rel: "Rel contextWd f = Inr relPath"
    by (cases "Rel contextWd f") simp_all
  from assms rel obtain dsts where
    dsts: "matchSyncRules PathMatch syncRules relPath containerWd = Inr dsts"
    by (cases "matchSyncRules PathMatch syncRules relPath containerWd") simp_all
  from assms rel dsts have ne: "dsts \<noteq> []"
    by (cases "dsts = []") simp_all
  with assms rel dsts have rest:
    "intersect_loop Rel PathMatch contextWd containerWd syncRules files (ret(f \<mapsto> dsts))
       = Inr (Some m)"
    by simp
  have "resolves Rel PathMatch contextWd syncRules f"
    unfolding resolves_def
    using rel matchSyncRules_Inr(1) [OF dsts] matchSyncRules_nonempty [OF dsts ne]
    by simp
  with ne rest show ?thesis
    by (intro exI conjI)
qed

lemma intersect_loop_plan_resolves:
  "intersect_loop Rel PathMatch contextWd containerWd syncRules files ret = Inr (Some m) \<Longrightarrow>
     list_all (resolves Rel PathMatch contextWd syncRules) files"
proof (induction files arbitrary: ret)
  case Nil
  show ?case by simp
next
  case (Cons f files)
  from intersect_loop_Cons_plan [OF Cons.prems] obtain dsts where
    "resolves Rel PathMatch contextWd syncRules f"
    "intersect_loop Rel PathMatch contextWd containerWd syncRules files (ret(f \<mapsto> dsts))
       = Inr (Some m)"
    by (elim exE conjE)
  with Cons.IH show ?case
    by simp
qed

lemma intersect_loop_plan_dom:
  "intersect_loop Rel PathMatch contextWd containerWd syncRules files ret = Inr (Some m) \<Longrightarrow>
     dom m = dom ret \<union> set files"
proof (induction files arbitrary: ret)
  case Nil
  then show ?case by simp
next
  case (Cons f files)
  from intersect_loop_Cons_plan [OF Cons.prems] obtain dsts where
    "intersect_loop Rel PathMatch contextWd containerWd syncRules files (ret(f \<mapsto> dsts))
       = Inr (Some m)"
    by (elim exE conjE)
  from Cons.IH [OF this] show ?case
    by (auto simp: dom_def split: if_splits)
qed

lemma intersect_loop_plan_nonempty:
  "intersect_loop Rel PathMatch contextWd containerWd syncRules files ret = Inr (Some m) \<Longrightarrow>
     (\<And>k d. ret k = Some d \<Longrightarrow> d \<noteq> []) \<Longrightarrow> m k = Some d \<Longrightarrow> d \<noteq> []"
proof (induction files arbitrary: ret)
  case Nil
  then show ?case by simp
next
  case (Cons f files)
  from intersect_loop_Cons_plan [OF Cons.prems(1)] obtain dsts where ne: "dsts \<noteq> []"
    and rest: "intersect_loop Rel PathMatch contextWd containerWd syncRules files (ret(f \<mapsto> dsts))
       = Inr (Some m)"
    by (elim exE conjE)
  have "d' \<noteq> []" if "(ret(f \<mapsto> dsts)) k' = Some d'" for k' d'
  proof (cases "k' = f")
    case True
    with that ne show ?thesis by simp
  next
    case False
    with that have "ret k' = Some d'" by simp
    then show ?thesis by (rule Cons.prems(2))
  qed
  from Cons.IH [OF rest this Cons.prems(3)] show ?case .
qed

lemma intersect_loop_reaches_miss:
  assumes "list_all (without_error Rel PathMatch contextWd syncRules) pre"
    and "matches_no_rule Rel PathMatch contextWd syncRules f"
  shows "intersect_loop Rel PathMatch contextWd containerWd syncRules (pre @ f # post) ret
           = Inr None"
  using assms(1)
proof (induction pre arbitrary: ret)
  case Nil
  from assms(2) obtain relPath where rel: "Rel contextWd f = Inr relPath"
    and miss: "list_all (\<lambda>r. \<not> pattern_error PathMatch r relPath \<and> \<not> rule_matches PathMatch r relPath)
                 syncRules"
    by (cases "Rel contextWd f") (simp_all add: matches_no_rule_def)
  from rel matchSyncRules_miss [OF miss, of containerWd] show ?case
    by simp
next
  case (Cons g pre)
  from Cons.prems obtain relPath where rel: "Rel contextWd g = Inr relPath"
    and ok: "list_all (\<lambda>r. \<not> pattern_error PathMatch r relPath) syncRules"
    by (cases "Rel contextWd g") (simp_all add: without_error_def)
  from matchSyncRules_no_error [OF ok, of containerWd] obtain dsts where
    dsts: "matchSyncRules PathMatch syncRules relPath containerWd = Inr dsts"
    by blast
  from Cons.prems have "list_all (without_error Rel PathMatch contextWd syncRules) pre"
    by simp
  from Cons.IH [OF this] rel dsts show ?case
    by simp
qed

lemma intersect_loop_reaches_error:
  assumes "list_all (resolves Rel PathMatch contextWd syncRules) pre"
    and "Rel contextWd f = Inr relPath"
    and "matchSyncRules PathMatch syncRules relPath containerWd = Inl e"
  shows "intersect_loop Rel PathMatch contextWd containerWd syncRules (pre @ f # post) ret = Inl e"
  using assms(1)
proof (induction pre arbitrary: ret)
  case Nil
  from assms(2,3) show ?case
    by simp
next
  case (Cons g pre)
  from Cons.prems obtain relPath' where rel: "Rel contextWd g = Inr relPath'"
    and ok: "list_all (\<lambda>r. \<not> pattern_error PathMatch r relPath') syncRules"
    and some: "list_ex (\<lambda>r. rule_matches PathMatch r relPath') syncRules"
    by (cases "Rel contextWd g") (simp_all add: resolves_def)
  from matchSyncRules_no_error [OF ok, of containerWd] some obtain dsts where
    dsts: "matchSyncRules PathMatch syncRules relPath' containerWd = Inr dsts" "dsts \<noteq> []"
    by blast
  from Cons.prems have "list_all (resolves Rel PathMatch contextWd syncRules) pre"
    by simp
  from Cons.IH [OF this] rel dsts show ?case
    by simp
qed

lemma intersect_plan:
  assumes "intersect Rel PathMatch contextWd containerWd syncRules files = Inr (Some m)"
  shows "list_all (resolves Rel PathMatch contextWd syncRules) files"
    and "dom m = set files"
    and "m k = Some d \<Longrightarrow> d \<noteq> []"
proof -
  note loop = assms [unfolded intersect_def]
  show "list_all (resolves Rel PathMatch contextWd syncRules) files"
    by (rule intersect_loop_plan_resolves [OF loop])
  show "dom m = set files"
    using intersect_loop_plan_dom [OF loop] by simp
  show "d \<noteq> []" if "m k = Some d"
    by (rule intersect_loop_plan_nonempty [OF loop _ that]) simp
qed

lemma resolves_not_miss:
  "resolves Rel PathMatch contextWd syncRules f \<Longrightarrow>
     \<not> matches_no_rule Rel PathMatch contextWd syncRules f"
  by (cases "Rel contextWd f") (auto simp: resolves_def matches_no_rule_def list_all_iff list_ex_iff)

lemma intersect_miss_no_plan:
  assumes "f \<in> set files" and "matches_no_rule Rel PathMatch contextWd syncRules f"
  shows "intersect Rel PathMatch contextWd containerWd syncRules files \<noteq> Inr (Some m)"
proof
  assume "intersect Rel PathMatch contextWd containerWd syncRules files = Inr (Some m)"
  from intersect_plan(1) [OF this] assms(1) have "resolves Rel PathMatch contextWd syncRules f"
    by (simp add: list_all_iff)
  with assms(2) show False
    by (simp add: resolves_not_miss)
qed

section \<open>The plan builder, past its guards\<close>

lemma NewItem_past_guards:
  assumes "HasChanged e" and "Sync a = Some sync" and "Manual sync \<noteq> []"
    and "latestTag (ImageName a) builds = tag" and "tag \<noteq> []"
    and "WorkingDir tag insecureRegistries = Inr containerWd"
  shows "NewItem WorkingDir Rel PathMatch a e builds insecureRegistries =
     (case intersect Rel PathMatch (Workspace a) containerWd (Manual sync) (Added e @ Modified e) of
        Inl err \<Rightarrow>
          (Inl (Wrap err ''intersecting sync map and added, modified files''),
           [LatestTagCall (ImageName a), WorkingDirCall tag, IntersectCall (Added e @ Modified e)])
      | Inr toCopy \<Rightarrow>
          (case intersect Rel PathMatch (Workspace a) containerWd (Manual sync) (Deleted e) of
             Inl err \<Rightarrow>
               (Inl (Wrap err ''intersecting sync map and deleted files''),
                [LatestTagCall (ImageName a), WorkingDirCall tag,
                 IntersectCall (Added e @ Modified e), IntersectCall (Deleted e)])
           | Inr toDelete \<Rightarrow>
               (case (toCopy, toDelete) of
                  (Some copy, Some delete) \<Rightarrow>
                    Inr (Some \<lparr>Item_Image = tag, Copy = copy, Delete = delete\<rparr>)
                | _ \<Rightarrow> Inr None,
                [LatestTagCall (ImageName a), WorkingDirCall tag,
                 IntersectCall (Added e @ Modified e), IntersectCall (Deleted e)])))"
  using assms
  by (simp add: NewItem_def Let_def split: sum.splits option.splits)

lemma NewItem_plan:
  assumes "fst (NewItem WorkingDir Rel PathMatch a e builds insecureRegistries) = Inr (Some it)"
  shows "\<exists>sync containerWd.
           Sync a = Some sync \<and> HasChanged e \<and> Manual sync \<noteq> []
           \<and> latestTag (ImageName a) builds \<noteq> []
           \<and> WorkingDir (latestTag (ImageName a) builds) insecureRegistries = Inr containerWd
           \<and> Item_Image it = latestTag (ImageName a) builds
           \<and> intersect Rel PathMatch (Workspace a) containerWd (Manual sync)
                 (Added e @ Modified e) = Inr (Some (Copy it))
           \<and> intersect Rel PathMatch (Workspace a) containerWd (Manual sync) (Deleted e)
                 = Inr (Some (Delete it))"
  using assms
  by (auto simp: NewItem_def Let_def split: if_splits sum.splits option.splits)

lemma NewItem_not_past_guards:
  assumes "\<not> past_guards a e"
  shows "NewItem WorkingDir Rel PathMatch a e builds insecureRegistries = (Inr None, [])"
  using assms by (cases "Sync a") (auto simp: NewItem_def past_guards_def)

lemma NewItem_no_tag:
  assumes "past_guards a e" and "latestTag (ImageName a) builds = []"
  shows "NewItem WorkingDir Rel PathMatch a e builds insecureRegistries =
           (Inl (New (''could not find latest tag for image '' @ ImageName a @ '' in builds: ''
                        @ fmt_builds builds)),
            [LatestTagCall (ImageName a)])"
  using assms by (cases "Sync a") (auto simp: NewItem_def past_guards_def Let_def)

lemma NewItem_no_working_dir:
  assumes "past_guards a e" and "latestTag (ImageName a) builds = tag" and "tag \<noteq> []"
    and "WorkingDir tag insecureRegistries = Inl err"
  shows "NewItem WorkingDir Rel PathMatch a e builds insecureRegistries =
           (Inl (Wrap err (''retrieving working dir for '' @ tag)),
            [LatestTagCall (ImageName a), WorkingDirCall tag])"
  using assms by (cases "Sync a") (auto simp: NewItem_def past_guards_def Let_def)

lemma NewItem_intersections:
  assumes "past_guards a e"
    and "latestTag (ImageName a) builds = tag" and "tag \<noteq> []"
    and "WorkingDir tag insecureRegistries = Inr containerWd"
  shows "NewItem WorkingDir Rel PathMatch a e builds insecureRegistries =
     (case intersect Rel PathMatch (Workspace a) containerWd (manual_rules a)
             (Added e @ Modified e) of
        Inl err \<Rightarrow>
          (Inl (Wrap err ''intersecting sync map and added, modified files''),
           [LatestTagCall (ImageName a), WorkingDirCall tag, IntersectCall (Added e @ Modified e)])
      | Inr toCopy \<Rightarrow>
          (case intersect Rel PathMatch (Workspace a) containerWd (manual_rules a) (Deleted e) of
             Inl err \<Rightarrow>
               (Inl (Wrap err ''intersecting sync map and deleted files''),
                [LatestTagCall (ImageName a), WorkingDirCall tag,
                 IntersectCall (Added e @ Modified e), IntersectCall (Deleted e)])
           | Inr toDelete \<Rightarrow>
               (case (toCopy, toDelete) of
                  (Some copy, Some delete) \<Rightarrow>
                    Inr (Some \<lparr>Item_Image = tag, Copy = copy, Delete = delete\<rparr>)
                | _ \<Rightarrow> Inr None,
                [LatestTagCall (ImageName a), WorkingDirCall tag,
                 IntersectCall (Added e @ Modified e), IntersectCall (Deleted e)])))"
proof -
  from assms(1) obtain sync where g: "HasChanged e" "Sync a = Some sync" "Manual sync \<noteq> []"
    by (cases "Sync a") (simp_all add: past_guards_def)
  then have rules: "manual_rules a = Manual sync"
    by (simp add: manual_rules_def)
  show ?thesis
    unfolding rules
    by (rule NewItem_past_guards [where WorkingDir = WorkingDir, OF g assms(2-4)])
qed

lemma NewItem_plan_rules:
  assumes "fst (NewItem WorkingDir Rel PathMatch a e builds insecureRegistries) = Inr (Some it)"
  shows "\<exists>containerWd.
           intersect Rel PathMatch (Workspace a) containerWd (manual_rules a)
               (Added e @ Modified e) = Inr (Some (Copy it))
           \<and> intersect Rel PathMatch (Workspace a) containerWd (manual_rules a) (Deleted e)
               = Inr (Some (Delete it))"
proof -
  from NewItem_plan [OF assms] obtain sync containerWd where
    "Sync a = Some sync"
    "intersect Rel PathMatch (Workspace a) containerWd (Manual sync)
        (Added e @ Modified e) = Inr (Some (Copy it))"
    "intersect Rel PathMatch (Workspace a) containerWd (Manual sync) (Deleted e)
        = Inr (Some (Delete it))"
    by (elim exE conjE)
  then show ?thesis
    by (intro exI [of _ containerWd]) (simp add: manual_rules_def)
qed

lemma latestTag_first:
  assumes "\<forall>b'\<in>set pre. build_ImageName b' \<noteq> img" and "build_ImageName b = img"
  shows "latestTag img (pre @ b # post) = Tag b"
  using assms by (induction pre) simp_all

lemma latestTag_none:
  assumes "\<forall>b\<in>set builds. build_ImageName b \<noteq> img"
  shows "latestTag img builds = []"
  using assms by (induction builds) simp_all

section \<open>The test doubles, evaluated\<close>

lemma stub_past_guards: "past_guards stub_artifact stub_events"
  by (simp add: past_guards_def stub_artifact_def stub_events_def stub_rules_def)

lemma stub_manual_rules: "manual_rules stub_artifact = stub_rules"
  by (simp add: manual_rules_def stub_artifact_def)

lemma stub_latestTag: "latestTag (ImageName stub_artifact) stub_builds = ''node-example:v1''"
  by code_simp

lemma stub_WorkingDir_v1: "stub_WorkingDir ''node-example:v1'' insecureRegistries = Inr ''/home/app''"
  by (simp add: stub_WorkingDir_def)

lemma stub_Rel_index: "stub_Rel ''node'' ''node/index.js'' = Inr ''index.js''"
  by code_simp

lemma stub_Rel_readme: "stub_Rel ''node'' ''node/README.md'' = Inr ''README.md''"
  by code_simp

lemma stub_Rel_html: "stub_Rel ''node'' ''node/index.html'' = Inr ''index.html''"
  by code_simp

lemma stub_Rel_gone:
  "stub_Rel ''node'' ''/tmp/gone.js'' = Inl (New ''Rel: can't make /tmp/gone.js relative to node'')"
  by code_simp

lemma stub_match_index:
  "matchSyncRules stub_PathMatch stub_rules ''index.js'' ''/home/app'' = Inr [''/home/app/index.js'']"
  by code_simp

lemma stub_match_readme:
  "matchSyncRules stub_PathMatch stub_rules ''README.md'' ''/home/app'' = Inr []"
  by code_simp

lemma stub_intersect_index:
  "intersect stub_Rel stub_PathMatch ''node'' ''/home/app'' stub_rules [''node/index.js'']
     = Inr (Some [''node/index.js'' \<mapsto> [''/home/app/index.js'']])"
  by (simp add: intersect_def stub_Rel_index stub_match_index)

lemma stub_intersect_nothing:
  "intersect stub_Rel stub_PathMatch ''node'' ''/home/app'' stub_rules [] = Inr (Some Map.empty)"
  by (simp add: intersect_def)

lemma stub_intersect_readme:
  "intersect stub_Rel stub_PathMatch ''node'' ''/home/app'' stub_rules [''node/README.md'']
     = Inr None"
  by (simp add: intersect_def stub_Rel_readme stub_match_readme)

lemma stub_intersect_gone:
  "intersect stub_Rel stub_PathMatch ''node'' ''/home/app'' stub_rules [''/tmp/gone.js'']
     = Inl (Wrap (New ''Rel: can't make /tmp/gone.js relative to node'')
              ''changed file /tmp/gone.js can't be found relative to context node'')"
  by (simp add: intersect_def stub_Rel_gone)

lemma stub_NewItem_plan:
  "NewItem stub_WorkingDir stub_Rel stub_PathMatch stub_artifact stub_events stub_builds Map.empty
     = (Inr (Some \<lparr>Item_Image = ''node-example:v1'',
                    Copy = [''node/index.js'' \<mapsto> [''/home/app/index.js'']],
                    Delete = Map.empty\<rparr>),
        [LatestTagCall ''node-example'', WorkingDirCall ''node-example:v1'',
         IntersectCall [''node/index.js''], IntersectCall []])"
proof -
  have ws: "Workspace stub_artifact = ''node''" and im: "ImageName stub_artifact = ''node-example''"
    by (simp_all add: stub_artifact_def)
  have ev: "Added stub_events @ Modified stub_events = [''node/index.js'']"
    "Deleted stub_events = []"
    by (simp_all add: stub_events_def)
  show ?thesis
    by (subst NewItem_intersections [where WorkingDir = stub_WorkingDir and tag = "''node-example:v1''"
          and containerWd = "''/home/app''", OF stub_past_guards stub_latestTag _ stub_WorkingDir_v1])
       (simp_all add: ws im ev stub_manual_rules stub_intersect_index stub_intersect_nothing)
qed

lemma stub_past_guards_miss: "past_guards stub_artifact stub_events_miss"
  by (simp add: past_guards_def stub_artifact_def stub_events_miss_def stub_rules_def)

lemma stub_NewItem_miss:
  "NewItem stub_WorkingDir stub_Rel stub_PathMatch stub_artifact stub_events_miss stub_builds
     Map.empty
     = (Inl (Wrap (Wrap (New ''Rel: can't make /tmp/gone.js relative to node'')
                     ''changed file /tmp/gone.js can't be found relative to context node'')
               ''intersecting sync map and deleted files''),
        [LatestTagCall ''node-example'', WorkingDirCall ''node-example:v1'',
         IntersectCall [''node/README.md''], IntersectCall [''/tmp/gone.js'']])"
proof -
  have ws: "Workspace stub_artifact = ''node''" and im: "ImageName stub_artifact = ''node-example''"
    by (simp_all add: stub_artifact_def)
  have ev: "Added stub_events_miss @ Modified stub_events_miss = [''node/README.md'']"
    "Deleted stub_events_miss = [''/tmp/gone.js'']"
    by (simp_all add: stub_events_miss_def)
  show ?thesis
    by (subst NewItem_intersections [where WorkingDir = stub_WorkingDir and tag = "''node-example:v1''"
          and containerWd = "''/home/app''", OF stub_past_guards_miss stub_latestTag _
          stub_WorkingDir_v1])
       (simp_all add: ws im ev stub_manual_rules stub_intersect_readme stub_intersect_gone)
qed

lemma stub_readme_matches_no_rule:
  "matches_no_rule stub_Rel stub_PathMatch ''node'' stub_rules ''node/README.md''"
  by code_simp

lemma stub_index_without_error:
  "list_all (without_error stub_Rel stub_PathMatch ''node'' stub_rules) [''node/index.js'']"
  by code_simp

section \<open>Errors and the no-plan signal in the plan builder\<close>

lemma intersect_reaches_miss:
  assumes "list_all (without_error Rel PathMatch contextWd syncRules) pre"
    and "matches_no_rule Rel PathMatch contextWd syncRules f"
  shows "intersect Rel PathMatch contextWd containerWd syncRules (pre @ f # post) = Inr None"
  unfolding intersect_def using assms by (rule intersect_loop_reaches_miss)

lemma intersect_reaches_pattern_error:
  assumes "list_all (resolves Rel PathMatch contextWd syncRules) pre"
    and "Rel contextWd f = Inr relPath"
    and "r \<in> set syncRules" and "pattern_error PathMatch r relPath"
  shows "\<exists>cause. matchSyncRules PathMatch syncRules relPath containerWd
                    = Inl (Wrap cause (''pattern error for '' @ relPath))
                \<and> intersect Rel PathMatch contextWd containerWd syncRules (pre @ f # post)
                    = Inl (Wrap cause (''pattern error for '' @ relPath))"
proof -
  from matchSyncRules_error [OF assms(3,4), of containerWd] obtain cause where
    c: "matchSyncRules PathMatch syncRules relPath containerWd
          = Inl (Wrap cause (''pattern error for '' @ relPath))"
    by (elim exE)
  have "intersect Rel PathMatch contextWd containerWd syncRules (pre @ f # post)
          = Inl (Wrap cause (''pattern error for '' @ relPath))"
    unfolding intersect_def by (rule intersect_loop_reaches_error [OF assms(1,2) c])
  with c show ?thesis
    by (intro exI conjI)
qed

lemma NewItem_copy_error:
  assumes "past_guards a e"
    and "latestTag (ImageName a) builds = tag" and "tag \<noteq> []"
    and "WorkingDir tag insecureRegistries = Inr containerWd"
    and "intersect Rel PathMatch (Workspace a) containerWd (manual_rules a)
           (Added e @ Modified e) = Inl err"
  shows "fst (NewItem WorkingDir Rel PathMatch a e builds insecureRegistries)
           = Inl (Wrap err ''intersecting sync map and added, modified files'')"
  by (subst NewItem_intersections [where WorkingDir = WorkingDir, OF assms(1-4)])
     (simp add: assms(5))

lemma NewItem_delete_error:
  assumes "past_guards a e"
    and "latestTag (ImageName a) builds = tag" and "tag \<noteq> []"
    and "WorkingDir tag insecureRegistries = Inr containerWd"
    and "intersect Rel PathMatch (Workspace a) containerWd (manual_rules a)
           (Added e @ Modified e) = Inr toCopy"
    and "intersect Rel PathMatch (Workspace a) containerWd (manual_rules a) (Deleted e) = Inl err"
  shows "NewItem WorkingDir Rel PathMatch a e builds insecureRegistries
           = (Inl (Wrap err ''intersecting sync map and deleted files''),
              [LatestTagCall (ImageName a), WorkingDirCall tag,
               IntersectCall (Added e @ Modified e), IntersectCall (Deleted e)])"
  by (subst NewItem_intersections [where WorkingDir = WorkingDir, OF assms(1-4)])
     (simp add: assms(5,6))

lemma NewItem_both_run:
  assumes "past_guards a e"
    and "latestTag (ImageName a) builds = tag" and "tag \<noteq> []"
    and "WorkingDir tag insecureRegistries = Inr containerWd"
    and "intersect Rel PathMatch (Workspace a) containerWd (manual_rules a)
           (Added e @ Modified e) = Inr toCopy"
  shows "snd (NewItem WorkingDir Rel PathMatch a e builds insecureRegistries)
           = [LatestTagCall (ImageName a), WorkingDirCall tag,
              IntersectCall (Added e @ Modified e), IntersectCall (Deleted e)]"
  by (subst NewItem_intersections [where WorkingDir = WorkingDir, OF assms(1-4)])
     (simp add: assms(5) split: sum.splits)

lemma NewItem_no_errors:
  assumes "past_guards a e"
    and "latestTag (ImageName a) builds = tag" and "tag \<noteq> []"
    and "WorkingDir tag insecureRegistries = Inr containerWd"
    and "intersect Rel PathMatch (Workspace a) containerWd (manual_rules a)
           (Added e @ Modified e) = Inr toCopy"
    and "intersect Rel PathMatch (Workspace a) containerWd (manual_rules a) (Deleted e)
           = Inr toDelete"
  shows "fst (NewItem WorkingDir Rel PathMatch a e builds insecureRegistries)
           = (case (toCopy, toDelete) of
                (Some copy, Some delete) \<Rightarrow>
                  Inr (Some \<lparr>Item_Image = tag, Copy = copy, Delete = delete\<rparr>)
              | _ \<Rightarrow> Inr None)"
  by (subst NewItem_intersections [where WorkingDir = WorkingDir, OF assms(1-4)])
     (simp add: assms(5,6))

lemma NewItem_signal_no_error:
  assumes "past_guards a e"
    and "latestTag (ImageName a) builds = tag" and "tag \<noteq> []"
    and "WorkingDir tag insecureRegistries = Inr containerWd"
    and "fst (NewItem WorkingDir Rel PathMatch a e builds insecureRegistries) = Inr None"
  shows "\<not> isl (intersect Rel PathMatch (Workspace a) containerWd (manual_rules a)
                  (Added e @ Modified e))"
    and "\<not> isl (intersect Rel PathMatch (Workspace a) containerWd (manual_rules a) (Deleted e))"
proof -
  let ?copy = "intersect Rel PathMatch (Workspace a) containerWd (manual_rules a)
                 (Added e @ Modified e)"
  let ?delete = "intersect Rel PathMatch (Workspace a) containerWd (manual_rules a) (Deleted e)"
  show c: "\<not> isl ?copy"
  proof (cases ?copy)
    case (Inl err)
    from NewItem_copy_error [where WorkingDir = WorkingDir, OF assms(1-4) Inl] assms(5)
    show ?thesis by simp
  next
    case (Inr toCopy)
    then show ?thesis by simp
  qed
  show "\<not> isl ?delete"
  proof (cases ?delete)
    case (Inl err)
    from c obtain toCopy where "?copy = Inr toCopy"
      by (cases ?copy) simp_all
    from NewItem_delete_error [where WorkingDir = WorkingDir, OF assms(1-4) this Inl] assms(5)
    show ?thesis by simp
  next
    case (Inr toDelete)
    then show ?thesis by simp
  qed
qed

lemma NewItem_miss_no_plan:
  assumes "matches_no_rule Rel PathMatch (Workspace a) (manual_rules a) f"
    and "f \<in> set (Added e @ Modified e @ Deleted e)"
  shows "fst (NewItem WorkingDir Rel PathMatch a e builds insecureRegistries) \<noteq> Inr (Some it)"
proof
  assume "fst (NewItem WorkingDir Rel PathMatch a e builds insecureRegistries) = Inr (Some it)"
  from NewItem_plan_rules [OF this] obtain containerWd where
    copy: "intersect Rel PathMatch (Workspace a) containerWd (manual_rules a)
             (Added e @ Modified e) = Inr (Some (Copy it))"
    and delete: "intersect Rel PathMatch (Workspace a) containerWd (manual_rules a) (Deleted e)
             = Inr (Some (Delete it))"
    by (elim exE conjE)
  from assms(2) consider "f \<in> set (Added e @ Modified e)" | "f \<in> set (Deleted e)"
    by auto
  then show False
  proof cases
    case 1
    from intersect_miss_no_plan [OF 1 assms(1)] copy show False by simp
  next
    case 2
    from intersect_miss_no_plan [OF 2 assms(1)] delete show False by simp
  qed
qed

section \<open>The plan executor runs the generated operations in order\<close>

lemma run_cmds_append:
  "run_cmds RunCmdOut (xs @ ys) n w =
     (case run_cmds RunCmdOut xs n w of
        (Some err, n', w') \<Rightarrow> (Some err, n', w')
      | (None, n', w') \<Rightarrow> run_cmds RunCmdOut ys n' w')"
  by (induction xs arbitrary: n w) (simp_all split: prod.splits option.splits)

lemma containers_loop_ops:
  "containers_loop RunCmdOut img files cmdFn p cs n w =
     run_cmds RunCmdOut (container_ops img files cmdFn p cs) n w"
proof (induction cs arbitrary: n w)
  case Nil
  show ?case by (simp add: container_ops_def)
next
  case (Cons c cs)
  have unfold: "container_ops img files cmdFn p (c # cs) =
      (if Container_Image c = img then cmdFn p c files else []) @ container_ops img files cmdFn p cs"
    by (simp add: container_ops_def)
  show ?case
    unfolding unfold
    by (simp add: run_cmds_append Cons.IH split: prod.splits option.splits)
qed

lemma pods_loop_ops:
  "pods_loop RunCmdOut img files cmdFn pods n w =
     run_cmds RunCmdOut (pod_ops img files cmdFn pods) n w"
proof (induction pods arbitrary: n w)
  case Nil
  show ?case by (simp add: pod_ops_def)
next
  case (Cons p pods)
  have unfold: "pod_ops img files cmdFn (p # pods) =
      container_ops img files cmdFn p (Containers p) @ pod_ops img files cmdFn pods"
    by (simp add: pod_ops_def)
  show ?case
    unfolding unfold
    by (simp add: run_cmds_append containers_loop_ops Cons.IH split: prod.splits option.splits)
qed

lemma namespaces_loop_failure:
  "run_cmds RunCmdOut (generated_ops listPods img files cmdFn namespaces) n w = (Some err, n', w')
     \<Longrightarrow> namespaces_loop listPods RunCmdOut img files cmdFn namespaces n w = (Some err, n', w')"
proof (induction namespaces arbitrary: n w)
  case Nil
  then show ?case by simp
next
  case (Cons ns namespaces)
  show ?case
  proof (cases "listPods ns")
    case (Inl e)
    with Cons.prems show ?thesis by simp
  next
    case (Inr pods)
    obtain r n1 w1 where here: "run_cmds RunCmdOut (pod_ops img files cmdFn pods) n w = (r, n1, w1)"
      by (cases "run_cmds RunCmdOut (pod_ops img files cmdFn pods) n w") auto
    show ?thesis
    proof (cases r)
      case None
      with Cons.prems Inr here have
        "run_cmds RunCmdOut (generated_ops listPods img files cmdFn namespaces) n1 w1
           = (Some err, n', w')"
        by (simp add: run_cmds_append)
      from Cons.IH [OF this] Inr here None show ?thesis
        by (simp add: pods_loop_ops)
    next
      case (Some e)
      with Cons.prems Inr here show ?thesis
        by (simp add: run_cmds_append pods_loop_ops)
    qed
  qed
qed

lemma namespaces_loop_listed:
  "list_all (\<lambda>ns. \<not> isl (listPods ns)) namespaces \<Longrightarrow>
     namespaces_loop listPods RunCmdOut img files cmdFn namespaces n w
       = run_cmds RunCmdOut (generated_ops listPods img files cmdFn namespaces) n w"
proof (induction namespaces arbitrary: n w)
  case Nil
  show ?case by simp
next
  case (Cons ns namespaces)
  then obtain pods where pods: "listPods ns = Inr pods"
    by (cases "listPods ns") simp_all
  from Cons.prems have "list_all (\<lambda>ns. \<not> isl (listPods ns)) namespaces"
    by simp
  note IH = Cons.IH [OF this]
  show ?case
    by (simp add: pods run_cmds_append pods_loop_ops IH split: prod.splits option.splits)
qed

lemma run_cmds_succeed:
  "succeed_in_order RunCmdOut cmds w = Some w' \<Longrightarrow>
     run_cmds RunCmdOut cmds n w = (None, n + length cmds, w')"
  by (induction cmds arbitrary: n w) (auto split: prod.splits option.splits)

lemma run_cmds_first_failure:
  assumes "succeed_in_order RunCmdOut pre w = Some w1" and "RunCmdOut c w1 = (Some err, w2)"
  shows "run_cmds RunCmdOut (pre @ c # post) n w = (Some err, n + length pre, w2)"
  by (simp add: run_cmds_append run_cmds_succeed [OF assms(1)] assms(2))

lemma no_operations_generated:
  "no_operations listPods img files cmdFn namespaces \<Longrightarrow>
     list_all (\<lambda>ns. \<not> isl (listPods ns)) namespaces
     \<and> generated_ops listPods img files cmdFn namespaces = []"
proof (induction namespaces)
  case Nil
  show ?case by simp
next
  case (Cons ns namespaces)
  from Cons.prems obtain pods where pods: "listPods ns = Inr pods"
    and none: "list_all (\<lambda>p. list_all (\<lambda>c. Container_Image c \<noteq> img \<or> cmdFn p c files = [])
                               (Containers p)) pods"
    and rest: "no_operations listPods img files cmdFn namespaces"
    by (cases "listPods ns") (simp_all add: no_operations_def)
  from none have "pod_ops img files cmdFn pods = []"
    by (auto simp: pod_ops_def container_ops_def list_all_iff)
  with pods Cons.IH [OF rest] show ?case
    by simp
qed

lemma Perform_runs_generated:
  assumes "dom files \<noteq> {}"
    and "run_cmds RunCmdOut (generated_ops listPods img files cmdFn namespaces) 0 w
           = (Some err, n', w')"
  shows "Perform (Inr listPods) RunCmdOut img files cmdFn namespaces w = (Some err, w')"
  using assms(1) namespaces_loop_failure [OF assms(2)]
  by (simp add: Perform_def)

lemma Perform_all_listed:
  assumes "dom files \<noteq> {}" and "list_all (\<lambda>ns. \<not> isl (listPods ns)) namespaces"
    and "run_cmds RunCmdOut (generated_ops listPods img files cmdFn namespaces) 0 w
           = (None, n', w')"
  shows "Perform (Inr listPods) RunCmdOut img files cmdFn namespaces w =
           (if n' = 0 then Some (New ''didn't sync any files'') else None, w')"
  using assms(1) namespaces_loop_listed [OF assms(2), of RunCmdOut img files cmdFn 0 w] assms(3)
  by (simp add: Perform_def)

section \<open>The plan builder\<close>

text \<open>
  Claim C2. Every plan \<open>NewItem\<close> returns is fully populated: every key of its copy map
  and of its delete map is mapped to a list of at least one destination, so a plan with a
  key of zero destinations is never returned. The keys are the changed files: those of
  the copy map the added and modified ones, those of the delete map the deleted ones.
\<close>

theorem C2_plan_fully_populated:
  assumes "fst (NewItem WorkingDir Rel PathMatch a e builds insecureRegistries) = Inr (Some it)"
  shows "(\<forall>k\<in>dom (Copy it). length (the (Copy it k)) \<ge> 1)
         \<and> (\<forall>k\<in>dom (Delete it). length (the (Delete it k)) \<ge> 1)
         \<and> dom (Copy it) = set (Added e @ Modified e)
         \<and> dom (Delete it) = set (Deleted e)"
proof -
  from NewItem_plan_rules [OF assms] obtain containerWd where
    copy: "intersect Rel PathMatch (Workspace a) containerWd (manual_rules a)
             (Added e @ Modified e) = Inr (Some (Copy it))"
    and delete: "intersect Rel PathMatch (Workspace a) containerWd (manual_rules a) (Deleted e)
             = Inr (Some (Delete it))"
    by (elim exE conjE)
  have "length (the (Copy it k)) \<ge> 1" if "k \<in> dom (Copy it)" for k
  proof -
    from that obtain d where d: "Copy it k = Some d"
      by (auto simp: dom_def)
    from intersect_plan(3) [OF copy d] d show ?thesis
      by (cases d) simp_all
  qed
  moreover have "length (the (Delete it k)) \<ge> 1" if "k \<in> dom (Delete it)" for k
  proof -
    from that obtain d where d: "Delete it k = Some d"
      by (auto simp: dom_def)
    from intersect_plan(3) [OF delete d] d show ?thesis
      by (cases d) simp_all
  qed
  moreover note intersect_plan(2) [OF copy] intersect_plan(2) [OF delete]
  ultimately show ?thesis
    by (intro conjI ballI)
qed

theorem C2_plan_fully_populated_witness:
  "\<exists>it. fst (NewItem stub_WorkingDir stub_Rel stub_PathMatch stub_artifact stub_events stub_builds
              Map.empty) = Inr (Some it)
        \<and> Copy it ''node/index.js'' = Some [''/home/app/index.js'']
        \<and> length (the (Copy it ''node/index.js'')) \<ge> 1
        \<and> dom (Delete it) = {}"
proof -
  let ?it = "\<lparr>Item_Image = ''node-example:v1'',
              Copy = [''node/index.js'' \<mapsto> [''/home/app/index.js'']],
              Delete = Map.empty\<rparr>"
  have r: "fst (NewItem stub_WorkingDir stub_Rel stub_PathMatch stub_artifact stub_events stub_builds
              Map.empty) = Inr (Some ?it)"
    by (simp add: stub_NewItem_plan)
  note c2 = C2_plan_fully_populated [where WorkingDir = stub_WorkingDir, OF r]
  have k: "''node/index.js'' \<in> dom (Copy ?it)"
    by simp
  from c2 have "\<forall>k\<in>dom (Copy ?it). length (the (Copy ?it k)) \<ge> 1"
    by (rule conjunct1)
  from bspec [OF this k] have l: "length (the (Copy ?it ''node/index.js'')) \<ge> 1" .
  have "dom (Delete ?it) = set (Deleted stub_events)"
    by (rule conjunct2 [OF conjunct2 [OF conjunct2 [OF c2]]])
  then have dl: "dom (Delete ?it) = {}"
    by (simp add: stub_events_def)
  have c: "Copy ?it ''node/index.js'' = Some [''/home/app/index.js'']"
    by simp
  from r c l dl show ?thesis
    by (intro exI [of _ ?it] conjI)
qed

text \<open>
  Claim C3. If the batch's \<open>hasChanged\<close> flag is false or the artifact declares zero
  manual sync rules, \<open>NewItem\<close> returns \<open>(nil, nil)\<close> and makes no call: neither the
  tag resolution nor the working-directory resolver is invoked.
\<close>

theorem C3_guards_return_without_calls:
  assumes "\<not> HasChanged e \<or> manual_rules a = []"
  shows "NewItem WorkingDir Rel PathMatch a e builds insecureRegistries = (Inr None, [])"
proof (rule NewItem_not_past_guards)
  from assms show "\<not> past_guards a e"
    by (cases "Sync a") (auto simp: past_guards_def manual_rules_def)
qed

theorem C3_guards_return_without_calls_witness:
  "NewItem stub_WorkingDir stub_Rel stub_PathMatch stub_artifact
     \<lparr>Added = [], Modified = [], Deleted = [], HasChanged = False\<rparr> stub_builds Map.empty
     = (Inr None, [])
   \<and> NewItem stub_WorkingDir stub_Rel stub_PathMatch
       \<lparr>ImageName = ''node-example'', Workspace = ''node'', Sync = Some \<lparr>Manual = []\<rparr>\<rparr>
       stub_events stub_builds Map.empty
     = (Inr None, [])
   \<and> NewItem stub_WorkingDir stub_Rel stub_PathMatch
       \<lparr>ImageName = ''node-example'', Workspace = ''node'', Sync = None\<rparr>
       stub_events stub_builds Map.empty
     = (Inr None, [])"
proof (intro conjI)
  let ?e = "\<lparr>Added = [], Modified = [], Deleted = [], HasChanged = False\<rparr>"
  have "\<not> HasChanged ?e \<or> manual_rules stub_artifact = []"
    by simp
  then show "NewItem stub_WorkingDir stub_Rel stub_PathMatch stub_artifact ?e stub_builds Map.empty
     = (Inr None, [])"
    by (rule C3_guards_return_without_calls)
next
  let ?a = "\<lparr>ImageName = ''node-example'', Workspace = ''node'', Sync = Some \<lparr>Manual = []\<rparr>\<rparr>"
  have "\<not> HasChanged stub_events \<or> manual_rules ?a = []"
    by (simp add: manual_rules_def)
  then show "NewItem stub_WorkingDir stub_Rel stub_PathMatch ?a stub_events stub_builds Map.empty
     = (Inr None, [])"
    by (rule C3_guards_return_without_calls)
next
  let ?a = "\<lparr>ImageName = ''node-example'', Workspace = ''node'', Sync = None\<rparr>"
  have "\<not> HasChanged stub_events \<or> manual_rules ?a = []"
    by (simp add: manual_rules_def)
  then show "NewItem stub_WorkingDir stub_Rel stub_PathMatch ?a stub_events stub_builds Map.empty
     = (Inr None, [])"
    by (rule C3_guards_return_without_calls)
qed

text \<open>
  Claim C4. \<open>latestTag\<close> returns the tag of the first build whose image name equals the
  query, and the empty string when no build matches. Whenever the tag \<open>NewItem\<close>
  resolves is empty, \<open>NewItem\<close> returns an error, not a nil plan; its text starts with
  \<open>could not find latest tag for image\<close> followed by the image name. The tag is
  resolved once \<open>NewItem\<close> is past its guards.
\<close>

theorem C4_latestTag_first_match:
  "((\<forall>b'\<in>set pre. build_ImageName b' \<noteq> img) \<and> build_ImageName b = img
      \<longrightarrow> latestTag img (pre @ b # post) = Tag b)
   \<and> ((\<forall>b\<in>set builds. build_ImageName b \<noteq> img) \<longrightarrow> latestTag img builds = [])
   \<and> (past_guards a e \<and> latestTag (ImageName a) builds = []
        \<longrightarrow> (\<exists>err. NewItem WorkingDir Rel PathMatch a e builds insecureRegistries
                      = (Inl err, [LatestTagCall (ImageName a)])
                  \<and> Error err = ''could not find latest tag for image '' @ ImageName a
                                  @ '' in builds: '' @ fmt_builds builds))"
proof (intro conjI impI)
  assume "(\<forall>b'\<in>set pre. build_ImageName b' \<noteq> img) \<and> build_ImageName b = img"
  then show "latestTag img (pre @ b # post) = Tag b"
    by (simp add: latestTag_first)
next
  assume "\<forall>b\<in>set builds. build_ImageName b \<noteq> img"
  then show "latestTag img builds = []"
    by (rule latestTag_none)
next
  assume "past_guards a e \<and> latestTag (ImageName a) builds = []"
  then have g: "past_guards a e" and t: "latestTag (ImageName a) builds = []"
    by simp_all
  show "\<exists>err. NewItem WorkingDir Rel PathMatch a e builds insecureRegistries
                      = (Inl err, [LatestTagCall (ImageName a)])
                  \<and> Error err = ''could not find latest tag for image '' @ ImageName a
                                  @ '' in builds: '' @ fmt_builds builds"
    by (intro exI conjI, rule NewItem_no_tag [OF g t]) simp
qed

theorem C4_latestTag_first_match_witness:
  "latestTag ''node-example'' stub_builds = ''node-example:v1''
   \<and> latestTag ''absent'' stub_builds = []
   \<and> (\<exists>err. NewItem stub_WorkingDir stub_Rel stub_PathMatch stub_artifact stub_events
               [\<lparr>build_ImageName = ''other'', Tag = ''other:v7''\<rparr>] Map.empty
             = (Inl err, [LatestTagCall ''node-example''])
           \<and> Error err = ''could not find latest tag for image node-example in builds: [{other other:v7}]'')"
proof -
  let ?o = "\<lparr>build_ImageName = ''other'', Tag = ''other:v7''\<rparr>"
  let ?b = "\<lparr>build_ImageName = ''node-example'', Tag = ''node-example:v1''\<rparr>"
  let ?c = "\<lparr>build_ImageName = ''node-example'', Tag = ''node-example:v0''\<rparr>"
  note c4 = C4_latestTag_first_match
    [of "[?o]" "''node-example''" ?b "[?c]" "[?o]" stub_artifact stub_events stub_WorkingDir
        stub_Rel stub_PathMatch Map.empty]
  have im: "ImageName stub_artifact = ''node-example''"
    by (simp add: stub_artifact_def)
  have h1: "(\<forall>b'\<in>set [?o]. build_ImageName b' \<noteq> ''node-example'')
              \<and> build_ImageName ?b = ''node-example''"
    by simp
  have "latestTag ''node-example'' ([?o] @ ?b # [?c]) = Tag ?b"
    by (rule mp [OF conjunct1 [OF c4] h1])
  then have A: "latestTag ''node-example'' stub_builds = ''node-example:v1''"
    by (simp add: stub_builds_def)
  have B: "latestTag ''absent'' stub_builds = []"
    by code_simp
  have h3: "past_guards stub_artifact stub_events \<and> latestTag (ImageName stub_artifact) [?o] = []"
    by (simp add: stub_past_guards im)
  have f: "fmt_builds [?o] = ''[{other other:v7}]''"
    by code_simp
  from mp [OF conjunct2 [OF conjunct2 [OF c4]] h3]
  have C: "\<exists>err. NewItem stub_WorkingDir stub_Rel stub_PathMatch stub_artifact stub_events
               [?o] Map.empty
             = (Inl err, [LatestTagCall ''node-example''])
           \<and> Error err = ''could not find latest tag for image node-example in builds: [{other other:v7}]''"
    unfolding im f by simp
  from A B C show ?thesis
    by (intro conjI)
qed

section \<open>Destinations of the rule matcher\<close>

text \<open>
  Claim C5. For every matching rule, the computed destination is obtained by prefixing
  the rule's destination with the container working directory exactly when the
  destination is not absolute, removing the literal prefix \<open>Strip\<close> from the relative
  path (the path is kept whole when it does not start with the prefix), and joining the
  remainder onto the possibly prefixed destination. In particular, for the rule
  \<open>{Src: "src/**/*.js", Dest: "/app", Strip: "src/"}\<close>, the container working directory
  \<open>/home/app\<close> and the relative path \<open>src/a/b.js\<close>, the destination is
  \<open>/app/a/b.js\<close>.
\<close>

theorem C5_destination_of_matching_rule:
  "((\<forall>q\<in>set syncRules. \<not> pattern_error PathMatch q relPath)
      \<and> r \<in> set syncRules \<and> rule_matches PathMatch r relPath
    \<longrightarrow> (\<exists>dsts. matchSyncRules PathMatch syncRules relPath containerWd = Inr dsts
           \<and> rule_destination r relPath containerWd \<in> set dsts
           \<and> (syncRules = [r] \<longrightarrow> dsts = [rule_destination r relPath containerWd])))
   \<and> (path_IsAbs (Dest r) \<and> relPath = Strip r @ rest
        \<longrightarrow> rule_destination r relPath containerWd = path_Join [Dest r, rest])
   \<and> (\<not> path_IsAbs (Dest r) \<and> relPath = Strip r @ rest
        \<longrightarrow> rule_destination r relPath containerWd = path_Join [containerWd, Dest r, rest])
   \<and> (path_IsAbs (Dest r) \<and> (\<forall>rest. relPath \<noteq> Strip r @ rest)
        \<longrightarrow> rule_destination r relPath containerWd = path_Join [Dest r, relPath])
   \<and> (\<not> path_IsAbs (Dest r) \<and> (\<forall>rest. relPath \<noteq> Strip r @ rest)
        \<longrightarrow> rule_destination r relPath containerWd = path_Join [containerWd, Dest r, relPath])
   \<and> (PathMatch ''src/**/*.js'' ''src/a/b.js'' = Inr True
        \<longrightarrow> matchSyncRules PathMatch [\<lparr>Src = ''src/**/*.js'', Dest = ''/app'', Strip = ''src/''\<rparr>]
              ''src/a/b.js'' ''/home/app'' = Inr [''/app/a/b.js''])"
proof (intro conjI impI)
  assume a: "(\<forall>q\<in>set syncRules. \<not> pattern_error PathMatch q relPath)
      \<and> r \<in> set syncRules \<and> rule_matches PathMatch r relPath"
  then have all: "\<forall>q\<in>set syncRules. \<not> pattern_error PathMatch q relPath"
    and r: "r \<in> set syncRules" "rule_matches PathMatch r relPath"
    by simp_all
  let ?dsts = "map (\<lambda>q. rule_destination q relPath containerWd)
                 (filter (\<lambda>q. rule_matches PathMatch q relPath) syncRules)"
  show "\<exists>dsts. matchSyncRules PathMatch syncRules relPath containerWd = Inr dsts
           \<and> rule_destination r relPath containerWd \<in> set dsts
           \<and> (syncRules = [r] \<longrightarrow> dsts = [rule_destination r relPath containerWd])"
  proof (intro exI conjI)
    show "matchSyncRules PathMatch syncRules relPath containerWd = Inr ?dsts"
      by (rule matchSyncRules_filter [OF all])
    show "rule_destination r relPath containerWd \<in> set ?dsts"
      using r by simp
    show "syncRules = [r] \<longrightarrow> ?dsts = [rule_destination r relPath containerWd]"
      using r by simp
  qed
next
  assume "path_IsAbs (Dest r) \<and> relPath = Strip r @ rest"
  then show "rule_destination r relPath containerWd = path_Join [Dest r, rest]"
    by (simp add: rule_destination_def strings_HasPrefix_def del: path_Join.simps)
next
  assume "\<not> path_IsAbs (Dest r) \<and> relPath = Strip r @ rest"
  then show "rule_destination r relPath containerWd = path_Join [containerWd, Dest r, rest]"
    by (simp add: rule_destination_def strings_HasPrefix_def del: path_Join.simps)
next
  assume "path_IsAbs (Dest r) \<and> (\<forall>rest. relPath \<noteq> Strip r @ rest)"
  then show "rule_destination r relPath containerWd = path_Join [Dest r, relPath]"
    by (simp add: rule_destination_def strings_HasPrefix_append del: path_Join.simps)
next
  assume "\<not> path_IsAbs (Dest r) \<and> (\<forall>rest. relPath \<noteq> Strip r @ rest)"
  then show "rule_destination r relPath containerWd = path_Join [containerWd, Dest r, relPath]"
    by (simp add: rule_destination_def strings_HasPrefix_append del: path_Join.simps)
next
  let ?r = "\<lparr>Src = ''src/**/*.js'', Dest = ''/app'', Strip = ''src/''\<rparr>"
  assume m: "PathMatch ''src/**/*.js'' ''src/a/b.js'' = Inr True"
  then have ok: "\<forall>q\<in>set [?r]. \<not> pattern_error PathMatch q ''src/a/b.js''"
    and yes: "rule_matches PathMatch ?r ''src/a/b.js''"
    by (simp_all add: pattern_error_def rule_matches_def)
  have "matchSyncRules PathMatch [?r] ''src/a/b.js'' ''/home/app''
          = Inr (map (\<lambda>q. rule_destination q ''src/a/b.js'' ''/home/app'')
                   (filter (\<lambda>q. rule_matches PathMatch q ''src/a/b.js'') [?r]))"
    by (rule matchSyncRules_filter [OF ok])
  also have "\<dots> = Inr [rule_destination ?r ''src/a/b.js'' ''/home/app'']"
    using yes by simp
  also have "rule_destination ?r ''src/a/b.js'' ''/home/app'' = ''/app/a/b.js''"
    by code_simp
  finally show "matchSyncRules PathMatch [?r] ''src/a/b.js'' ''/home/app'' = Inr [''/app/a/b.js'']" .
qed

theorem C5_destination_of_matching_rule_witness:
  "(\<exists>dsts. matchSyncRules stub_PathMatch [\<lparr>Src = ''**/*'', Dest = ''dist'', Strip = []\<rparr>]
              ''x/y.txt'' ''/home/app'' = Inr dsts
          \<and> dsts = [''/home/app/dist/x/y.txt''])
   \<and> matchSyncRules stub_PathMatch [\<lparr>Src = ''src/**/*.js'', Dest = ''/app'', Strip = ''src/''\<rparr>]
        ''src/a/b.js'' ''/home/app'' = Inr [''/app/a/b.js'']"
proof -
  let ?r = "\<lparr>Src = ''**/*'', Dest = ''dist'', Strip = []\<rparr>"
  have m1: "rule_matches stub_PathMatch ?r ''x/y.txt''"
    by code_simp
  have m2: "stub_PathMatch ''src/**/*.js'' ''src/a/b.js'' = Inr True"
    by code_simp
  have d: "rule_destination ?r ''x/y.txt'' ''/home/app'' = ''/home/app/dist/x/y.txt''"
    by code_simp
  have "\<not> pattern_error stub_PathMatch ?r ''x/y.txt''"
    by code_simp
  then have h: "(\<forall>q\<in>set [?r]. \<not> pattern_error stub_PathMatch q ''x/y.txt'')
      \<and> ?r \<in> set [?r] \<and> rule_matches stub_PathMatch ?r ''x/y.txt''"
    using m1 by (simp only: list.set ball_simps insert_iff simp_thms)
  note c5 = C5_destination_of_matching_rule
         [of "[?r]" stub_PathMatch "''x/y.txt''" ?r "''/home/app''" "[]"]
  have "\<exists>dsts. matchSyncRules stub_PathMatch [?r] ''x/y.txt'' ''/home/app'' = Inr dsts
           \<and> rule_destination ?r ''x/y.txt'' ''/home/app'' \<in> set dsts
           \<and> ([?r] = [?r] \<longrightarrow> dsts = [rule_destination ?r ''x/y.txt'' ''/home/app''])"
    by (rule mp [OF conjunct1 [OF c5] h])
  then obtain dsts where
    x: "matchSyncRules stub_PathMatch [?r] ''x/y.txt'' ''/home/app'' = Inr dsts"
    and y: "[?r] = [?r] \<longrightarrow> dsts = [rule_destination ?r ''x/y.txt'' ''/home/app'']"
    by blast
  from y have "dsts = [''/home/app/dist/x/y.txt'']"
    unfolding d by simp
  with x have A: "\<exists>dsts. matchSyncRules stub_PathMatch [?r] ''x/y.txt'' ''/home/app'' = Inr dsts
          \<and> dsts = [''/home/app/dist/x/y.txt'']"
    by blast
  have B: "matchSyncRules stub_PathMatch [\<lparr>Src = ''src/**/*.js'', Dest = ''/app'', Strip = ''src/''\<rparr>]
        ''src/a/b.js'' ''/home/app'' = Inr [''/app/a/b.js'']"
    by (rule mp [OF conjunct2 [OF conjunct2 [OF conjunct2 [OF conjunct2 [OF conjunct2 [OF c5]]]]] m2])
  from A B show ?thesis
    by (rule conjI)
qed

text \<open>
  Claim C6. For every rule set and relative path, the destinations of the rule matcher
  are in the order in which the rules are declared, and a path that matches N rules gets
  exactly N destinations, neither deduplicated nor merged; a path that matches two rules
  gets exactly two entries, in declaration order.
\<close>

theorem C6_declaration_order_and_count:
  assumes "\<forall>r\<in>set syncRules. \<not> pattern_error PathMatch r relPath"
  shows "\<exists>dsts. matchSyncRules PathMatch syncRules relPath containerWd = Inr dsts
           \<and> dsts = map (\<lambda>r. rule_destination r relPath containerWd)
                      (filter (\<lambda>r. rule_matches PathMatch r relPath) syncRules)
           \<and> length dsts = length (filter (\<lambda>r. rule_matches PathMatch r relPath) syncRules)
           \<and> (\<forall>r1 r2. filter (\<lambda>r. rule_matches PathMatch r relPath) syncRules = [r1, r2]
                 \<longrightarrow> dsts = [rule_destination r1 relPath containerWd,
                            rule_destination r2 relPath containerWd])"
proof (intro exI conjI)
  let ?dsts = "map (\<lambda>r. rule_destination r relPath containerWd)
                 (filter (\<lambda>r. rule_matches PathMatch r relPath) syncRules)"
  show "matchSyncRules PathMatch syncRules relPath containerWd = Inr ?dsts"
    by (rule matchSyncRules_filter [OF assms])
  show "?dsts = ?dsts" ..
  show "length ?dsts = length (filter (\<lambda>r. rule_matches PathMatch r relPath) syncRules)"
    by simp
  show "\<forall>r1 r2. filter (\<lambda>r. rule_matches PathMatch r relPath) syncRules = [r1, r2]
          \<longrightarrow> ?dsts = [rule_destination r1 relPath containerWd,
                       rule_destination r2 relPath containerWd]"
    by simp
qed

theorem C6_declaration_order_and_count_witness:
  "matchSyncRules stub_PathMatch
     [\<lparr>Src = ''src/**/*.js'', Dest = ''/app'', Strip = ''src/''\<rparr>,
      \<lparr>Src = ''*.md'', Dest = ''/docs'', Strip = []\<rparr>,
      \<lparr>Src = ''**/*.js'', Dest = ''backup'', Strip = []\<rparr>,
      \<lparr>Src = ''src/**/*.js'', Dest = ''/app'', Strip = ''src/''\<rparr>]
     ''src/a/b.js'' ''/home/app''
   = Inr [''/app/a/b.js'', ''/home/app/backup/src/a/b.js'', ''/app/a/b.js'']"
proof -
  let ?rules = "[\<lparr>Src = ''src/**/*.js'', Dest = ''/app'', Strip = ''src/''\<rparr>,
      \<lparr>Src = ''*.md'', Dest = ''/docs'', Strip = []\<rparr>,
      \<lparr>Src = ''**/*.js'', Dest = ''backup'', Strip = []\<rparr>,
      \<lparr>Src = ''src/**/*.js'', Dest = ''/app'', Strip = ''src/''\<rparr>]"
  have h: "\<forall>r\<in>set ?rules. \<not> pattern_error stub_PathMatch r ''src/a/b.js''"
    by code_simp
  have e: "map (\<lambda>r. rule_destination r ''src/a/b.js'' ''/home/app'')
             (filter (\<lambda>r. rule_matches stub_PathMatch r ''src/a/b.js'') ?rules)
           = [''/app/a/b.js'', ''/home/app/backup/src/a/b.js'', ''/app/a/b.js'']"
    by code_simp
  from C6_declaration_order_and_count [OF h, of "''/home/app''"]
  obtain dsts where "matchSyncRules stub_PathMatch ?rules ''src/a/b.js'' ''/home/app'' = Inr dsts"
    and "dsts = map (\<lambda>r. rule_destination r ''src/a/b.js'' ''/home/app'')
             (filter (\<lambda>r. rule_matches stub_PathMatch r ''src/a/b.js'') ?rules)"
    by blast
  then show ?thesis
    unfolding e by (simp only:)
qed

section \<open>A path that matches no rule, and errors\<close>

text \<open>
  Claim C1, as stated: if any single changed path matches zero sync rules, the
  intersection returns \<open>(nil, nil)\<close> rather than an error and \<open>NewItem\<close> returns
  \<open>(nil, nil)\<close> for the whole batch. It fails: the added file \<open>node/README.md\<close>
  matches no rule and the copy-side intersection returns \<open>(nil, nil)\<close>, but the deleted
  file \<open>/tmp/gone.js\<close> cannot be made relative to the workspace \<open>node\<close>, and
  \<open>NewItem\<close>, which checks both errors before the signal, returns that error.
\<close>

theorem C1_counterexample:
  "matches_no_rule stub_Rel stub_PathMatch (Workspace stub_artifact) (manual_rules stub_artifact)
     ''node/README.md''
   \<and> ''node/README.md'' \<in> set (Added stub_events_miss)
   \<and> intersect stub_Rel stub_PathMatch (Workspace stub_artifact) ''/home/app''
        (manual_rules stub_artifact) (Added stub_events_miss @ Modified stub_events_miss)
       = Inr None
   \<and> fst (NewItem stub_WorkingDir stub_Rel stub_PathMatch stub_artifact stub_events_miss
           stub_builds Map.empty)
       = Inl (Wrap (Wrap (New ''Rel: can't make /tmp/gone.js relative to node'')
                      ''changed file /tmp/gone.js can't be found relative to context node'')
                ''intersecting sync map and deleted files'')
   \<and> fst (NewItem stub_WorkingDir stub_Rel stub_PathMatch stub_artifact stub_events_miss
           stub_builds Map.empty) \<noteq> Inr None"
proof -
  have ws: "Workspace stub_artifact = ''node''"
    by (simp add: stub_artifact_def)
  have ev: "Added stub_events_miss = [''node/README.md'']" "Modified stub_events_miss = []"
    by (simp_all add: stub_events_miss_def)
  show ?thesis
    unfolding ws ev stub_manual_rules stub_NewItem_miss
    using stub_readme_matches_no_rule stub_intersect_readme by simp
qed

text \<open>
  Claim C1, amended. If a changed path (taken relative to the workspace) matches zero
  sync rules, then an intersection over a batch that holds it never returns a map, and
  returns \<open>(nil, nil)\<close> rather than an error when every path before it in the batch
  gets through without an error, whether or not the other paths match rules. \<open>NewItem\<close>
  never returns a plan for a batch that holds such a path, and returns \<open>(nil, nil)\<close>
  when the tag and the working directory resolve and neither of its two intersections
  returns an error.
\<close>

theorem C1_miss_aborts_unless_error:
  assumes "matches_no_rule Rel PathMatch contextWd syncRules f"
  shows "(f \<in> set files
            \<longrightarrow> (\<forall>m. intersect Rel PathMatch contextWd containerWd syncRules files \<noteq> Inr (Some m)))
       \<and> (list_all (without_error Rel PathMatch contextWd syncRules) pre
            \<longrightarrow> intersect Rel PathMatch contextWd containerWd syncRules (pre @ f # post) = Inr None)
       \<and> (Workspace a = contextWd \<and> manual_rules a = syncRules
            \<and> f \<in> set (Added e @ Modified e @ Deleted e)
            \<longrightarrow> (\<forall>it. fst (NewItem WorkingDir Rel PathMatch a e builds insecureRegistries)
                         \<noteq> Inr (Some it))
                \<and> (latestTag (ImageName a) builds \<noteq> []
                     \<and> WorkingDir (latestTag (ImageName a) builds) insecureRegistries
                         = Inr containerWd
                     \<and> \<not> isl (intersect Rel PathMatch contextWd containerWd syncRules
                                 (Added e @ Modified e))
                     \<and> \<not> isl (intersect Rel PathMatch contextWd containerWd syncRules (Deleted e))
                     \<longrightarrow> fst (NewItem WorkingDir Rel PathMatch a e builds insecureRegistries)
                           = Inr None))"
proof (intro conjI impI allI)
  fix m
  assume "f \<in> set files"
  then show "intersect Rel PathMatch contextWd containerWd syncRules files \<noteq> Inr (Some m)"
    using assms by (rule intersect_miss_no_plan)
next
  assume "list_all (without_error Rel PathMatch contextWd syncRules) pre"
  then show "intersect Rel PathMatch contextWd containerWd syncRules (pre @ f # post) = Inr None"
    using assms by (rule intersect_reaches_miss)
next
  fix it
  assume "Workspace a = contextWd \<and> manual_rules a = syncRules
            \<and> f \<in> set (Added e @ Modified e @ Deleted e)"
  with assms have "matches_no_rule Rel PathMatch (Workspace a) (manual_rules a) f"
    and "f \<in> set (Added e @ Modified e @ Deleted e)"
    by simp_all
  then show "fst (NewItem WorkingDir Rel PathMatch a e builds insecureRegistries) \<noteq> Inr (Some it)"
    by (rule NewItem_miss_no_plan)
next
  let ?result = "fst (NewItem WorkingDir Rel PathMatch a e builds insecureRegistries)"
  assume batch: "Workspace a = contextWd \<and> manual_rules a = syncRules
            \<and> f \<in> set (Added e @ Modified e @ Deleted e)"
  assume ok: "latestTag (ImageName a) builds \<noteq> []
      \<and> WorkingDir (latestTag (ImageName a) builds) insecureRegistries = Inr containerWd
      \<and> \<not> isl (intersect Rel PathMatch contextWd containerWd syncRules (Added e @ Modified e))
      \<and> \<not> isl (intersect Rel PathMatch contextWd containerWd syncRules (Deleted e))"
  from batch assms have miss: "matches_no_rule Rel PathMatch (Workspace a) (manual_rules a) f"
    and mem: "f \<in> set (Added e @ Modified e @ Deleted e)"
    by simp_all
  show "?result = Inr None"
  proof (cases "past_guards a e")
    case False
    then show ?thesis
      by (simp add: NewItem_not_past_guards)
  next
    case True
    from ok batch obtain toCopy toDelete where
      copy: "intersect Rel PathMatch (Workspace a) containerWd (manual_rules a)
               (Added e @ Modified e) = Inr toCopy"
      and delete: "intersect Rel PathMatch (Workspace a) containerWd (manual_rules a) (Deleted e)
               = Inr toDelete"
      by (cases "intersect Rel PathMatch contextWd containerWd syncRules (Added e @ Modified e)";
          cases "intersect Rel PathMatch contextWd containerWd syncRules (Deleted e)")
         simp_all
    from ok have tag: "latestTag (ImageName a) builds \<noteq> []"
      and wd: "WorkingDir (latestTag (ImageName a) builds) insecureRegistries = Inr containerWd"
      by simp_all
    have r: "?result = (case (toCopy, toDelete) of
                (Some copy, Some delete) \<Rightarrow>
                  Inr (Some \<lparr>Item_Image = latestTag (ImageName a) builds, Copy = copy,
                             Delete = delete\<rparr>)
              | _ \<Rightarrow> Inr None)"
      by (rule NewItem_no_errors [where WorkingDir = WorkingDir, OF True refl tag wd copy delete])
    have "?result \<noteq> Inr (Some it)" for it
      using miss mem by (rule NewItem_miss_no_plan)
    with r show ?thesis
      by (cases toCopy; cases toDelete) simp_all
  qed
qed

theorem C1_miss_aborts_unless_error_witness:
  "intersect stub_Rel stub_PathMatch ''node'' ''/home/app'' stub_rules
     ([''node/index.js''] @ ''node/README.md'' # []) = Inr None
   \<and> fst (NewItem stub_WorkingDir stub_Rel stub_PathMatch stub_artifact stub_events_partial
           stub_builds Map.empty) = Inr None"
proof -
  note c1 = C1_miss_aborts_unless_error
    [where Rel = stub_Rel and PathMatch = stub_PathMatch and contextWd = "''node''"
       and syncRules = stub_rules and f = "''node/README.md''" and pre = "[''node/index.js'']"
       and post = "[]" and containerWd = "''/home/app''" and a = stub_artifact
       and e = stub_events_partial and WorkingDir = stub_WorkingDir and builds = stub_builds
       and insecureRegistries = Map.empty and files = "[''node/README.md'']",
     OF stub_readme_matches_no_rule]
  have A: "intersect stub_Rel stub_PathMatch ''node'' ''/home/app'' stub_rules
             ([''node/index.js''] @ ''node/README.md'' # []) = Inr None"
    by (rule mp [OF conjunct1 [OF conjunct2 [OF c1]] stub_index_without_error])
  have ev: "Added stub_events_partial @ Modified stub_events_partial
              = [''node/index.js''] @ ''node/README.md'' # []"
    "Deleted stub_events_partial = []"
    by (simp_all add: stub_events_partial_def)
  have batch: "Workspace stub_artifact = ''node'' \<and> manual_rules stub_artifact = stub_rules
      \<and> ''node/README.md''
          \<in> set (Added stub_events_partial @ Modified stub_events_partial
                  @ Deleted stub_events_partial)"
    by (simp add: manual_rules_def stub_artifact_def stub_events_partial_def)
  have ok: "latestTag (ImageName stub_artifact) stub_builds \<noteq> []
      \<and> stub_WorkingDir (latestTag (ImageName stub_artifact) stub_builds) Map.empty
          = Inr ''/home/app''
      \<and> \<not> isl (intersect stub_Rel stub_PathMatch ''node'' ''/home/app'' stub_rules
                  (Added stub_events_partial @ Modified stub_events_partial))
      \<and> \<not> isl (intersect stub_Rel stub_PathMatch ''node'' ''/home/app'' stub_rules
                  (Deleted stub_events_partial))"
    unfolding ev A stub_intersect_nothing stub_latestTag
    by (simp add: stub_WorkingDir_v1)
  have B: "fst (NewItem stub_WorkingDir stub_Rel stub_PathMatch stub_artifact stub_events_partial
           stub_builds Map.empty) = Inr None"
    by (rule mp [OF conjunct2 [OF mp [OF conjunct2 [OF conjunct2 [OF c1]] batch]] ok])
  from A B show ?thesis
    by (rule conjI)
qed

text \<open>
  Claim C7. If testing a changed path against some rule's source pattern fails because
  the pattern is malformed, the rule matcher returns an error wrapped with the path being
  matched, the intersection that reaches the path (every path before it resolved to
  destinations) returns that same error and not \<open>(nil, nil)\<close>, and \<open>NewItem\<close>, past its
  guards, returns an error to its caller.
\<close>

theorem C7_pattern_error_is_returned:
  assumes "Rel contextWd f = Inr relPath"
    and "r \<in> set syncRules" and "pattern_error PathMatch r relPath"
    and "list_all (resolves Rel PathMatch contextWd syncRules) pre"
  shows "\<exists>cause.
           matchSyncRules PathMatch syncRules relPath containerWd
             = Inl (Wrap cause (''pattern error for '' @ relPath))
           \<and> intersect Rel PathMatch contextWd containerWd syncRules (pre @ f # post)
               = Inl (Wrap cause (''pattern error for '' @ relPath))
           \<and> (past_guards a e \<and> Workspace a = contextWd \<and> manual_rules a = syncRules
                \<and> (Added e @ Modified e = pre @ f # post \<or> Deleted e = pre @ f # post)
                \<longrightarrow> (\<exists>err. fst (NewItem WorkingDir Rel PathMatch a e builds insecureRegistries)
                             = Inl err))"
proof -
  from intersect_reaches_pattern_error [OF assms(4,1,2,3), of containerWd post]
  obtain cause where
    m: "matchSyncRules PathMatch syncRules relPath containerWd
          = Inl (Wrap cause (''pattern error for '' @ relPath))"
    and i: "intersect Rel PathMatch contextWd containerWd syncRules (pre @ f # post)
          = Inl (Wrap cause (''pattern error for '' @ relPath))"
    by (elim exE conjE)
  let ?result = "fst (NewItem WorkingDir Rel PathMatch a e builds insecureRegistries)"
  have ne: "\<exists>err. ?result = Inl err"
    if g: "past_guards a e" and ws: "Workspace a = contextWd" and rules: "manual_rules a = syncRules"
      and batch: "Added e @ Modified e = pre @ f # post \<or> Deleted e = pre @ f # post"
  proof (cases "latestTag (ImageName a) builds = []")
    case True
    from NewItem_no_tag [OF g True] show ?thesis
      by simp
  next
    case tag: False
    show ?thesis
    proof (cases "WorkingDir (latestTag (ImageName a) builds) insecureRegistries")
      case (Inl err)
      from NewItem_no_working_dir [where WorkingDir = WorkingDir, OF g refl tag Inl] show ?thesis
        by simp
    next
      case wd: (Inr wd)
      from intersect_reaches_pattern_error [OF assms(4,1,2,3), of wd post]
      obtain cause' where
        i': "intersect Rel PathMatch contextWd wd syncRules (pre @ f # post)
               = Inl (Wrap cause' (''pattern error for '' @ relPath))"
        by (elim exE conjE)
      show ?thesis
      proof (cases "intersect Rel PathMatch (Workspace a) wd (manual_rules a)
                      (Added e @ Modified e)")
        case (Inl err)
        from NewItem_copy_error [where WorkingDir = WorkingDir, OF g refl tag wd Inl]
        show ?thesis by simp
      next
        case copy: (Inr toCopy)
        with batch i' ws rules have "Deleted e = pre @ f # post"
          by auto
        with i' ws rules have
          "intersect Rel PathMatch (Workspace a) wd (manual_rules a) (Deleted e)
             = Inl (Wrap cause' (''pattern error for '' @ relPath))"
          by simp
        from NewItem_delete_error [where WorkingDir = WorkingDir, OF g refl tag wd copy this]
        show ?thesis by simp
      qed
    qed
  qed
  have n: "past_guards a e \<and> Workspace a = contextWd \<and> manual_rules a = syncRules
             \<and> (Added e @ Modified e = pre @ f # post \<or> Deleted e = pre @ f # post)
           \<longrightarrow> (\<exists>err. ?result = Inl err)"
  proof (intro impI)
    assume h: "past_guards a e \<and> Workspace a = contextWd \<and> manual_rules a = syncRules
             \<and> (Added e @ Modified e = pre @ f # post \<or> Deleted e = pre @ f # post)"
    show "\<exists>err. ?result = Inl err"
      by (rule ne) (simp_all add: h)
  qed
  show ?thesis
    by (rule exI [of _ cause], intro conjI) (fact m, fact i, fact n)
qed

theorem C7_pattern_error_is_returned_witness:
  "\<exists>cause.
     matchSyncRules stub_PathMatch [\<lparr>Src = ''[*.html'', Dest = ''.'', Strip = []\<rparr>] ''index.html''
         ''/home/app''
       = Inl (Wrap cause ''pattern error for index.html'')
     \<and> intersect stub_Rel stub_PathMatch ''node'' ''/home/app''
         [\<lparr>Src = ''[*.html'', Dest = ''.'', Strip = []\<rparr>] [''node/index.html'']
       = Inl (Wrap cause ''pattern error for index.html'')
     \<and> (\<exists>err. fst (NewItem stub_WorkingDir stub_Rel stub_PathMatch stub_artifact_bad
                     stub_events_html stub_builds Map.empty) = Inl err)"
proof -
  let ?r = "\<lparr>Src = ''[*.html'', Dest = ''.'', Strip = []\<rparr>"
  have bad: "pattern_error stub_PathMatch ?r ''index.html''"
    by code_simp
  have mem: "?r \<in> set [?r]"
    by simp
  have pre: "list_all (resolves stub_Rel stub_PathMatch ''node'' [?r]) []"
    by simp
  note c7 = C7_pattern_error_is_returned
    [where Rel = stub_Rel and PathMatch = stub_PathMatch and a = stub_artifact_bad
       and e = stub_events_html and WorkingDir = stub_WorkingDir and builds = stub_builds
       and insecureRegistries = Map.empty and containerWd = "''/home/app''" and post = "[]",
     OF stub_Rel_html mem bad pre]
  have h: "past_guards stub_artifact_bad stub_events_html
      \<and> Workspace stub_artifact_bad = ''node'' \<and> manual_rules stub_artifact_bad = [?r]
      \<and> (Added stub_events_html @ Modified stub_events_html = [] @ ''node/index.html'' # []
          \<or> Deleted stub_events_html = [] @ ''node/index.html'' # [])"
    by (simp add: past_guards_def manual_rules_def stub_artifact_bad_def stub_events_html_def)
  from c7 obtain cause where
    m: "matchSyncRules stub_PathMatch [?r] ''index.html'' ''/home/app''
          = Inl (Wrap cause (''pattern error for '' @ ''index.html''))"
    and i: "intersect stub_Rel stub_PathMatch ''node'' ''/home/app'' [?r]
              ([] @ ''node/index.html'' # [])
          = Inl (Wrap cause (''pattern error for '' @ ''index.html''))"
    and n: "past_guards stub_artifact_bad stub_events_html
      \<and> Workspace stub_artifact_bad = ''node'' \<and> manual_rules stub_artifact_bad = [?r]
      \<and> (Added stub_events_html @ Modified stub_events_html = [] @ ''node/index.html'' # []
          \<or> Deleted stub_events_html = [] @ ''node/index.html'' # [])
      \<longrightarrow> (\<exists>err. fst (NewItem stub_WorkingDir stub_Rel stub_PathMatch stub_artifact_bad
                     stub_events_html stub_builds Map.empty) = Inl err)"
    by (elim exE conjE)
  from m have m': "matchSyncRules stub_PathMatch [?r] ''index.html'' ''/home/app''
          = Inl (Wrap cause ''pattern error for index.html'')"
    by simp
  from i have i': "intersect stub_Rel stub_PathMatch ''node'' ''/home/app'' [?r]
              [''node/index.html'']
          = Inl (Wrap cause ''pattern error for index.html'')"
    by simp
  have e: "\<exists>err. fst (NewItem stub_WorkingDir stub_Rel stub_PathMatch stub_artifact_bad
                     stub_events_html stub_builds Map.empty) = Inl err"
    by (rule mp [OF n h])
  show ?thesis
    by (rule exI [of _ cause], intro conjI) (fact m', fact i', fact e)
qed

text \<open>
  Claim C10. \<open>NewItem\<close> runs the intersection of the deleted files even when the
  intersection of the added and modified files has returned \<open>(nil, nil)\<close>, and it checks
  both errors before it checks for that signal. So where the copy-side intersection
  returns \<open>(nil, nil)\<close> and the delete-side intersection returns an error, \<open>NewItem\<close>
  returns that error (wrapped), not \<open>(nil, nil)\<close>; and past the guards and the two
  resolvers, \<open>(nil, nil)\<close> is returned only when neither intersection returned an error.
\<close>

theorem C10_errors_checked_before_signal:
  assumes "past_guards a e"
    and "latestTag (ImageName a) builds = tag" and "tag \<noteq> []"
    and "WorkingDir tag insecureRegistries = Inr containerWd"
  shows "(intersect Rel PathMatch (Workspace a) containerWd (manual_rules a)
            (Added e @ Modified e) = Inr None
          \<longrightarrow> snd (NewItem WorkingDir Rel PathMatch a e builds insecureRegistries)
                = [LatestTagCall (ImageName a), WorkingDirCall tag,
                   IntersectCall (Added e @ Modified e), IntersectCall (Deleted e)])
       \<and> (intersect Rel PathMatch (Workspace a) containerWd (manual_rules a)
            (Added e @ Modified e) = Inr None
          \<and> intersect Rel PathMatch (Workspace a) containerWd (manual_rules a) (Deleted e)
              = Inl err
          \<longrightarrow> fst (NewItem WorkingDir Rel PathMatch a e builds insecureRegistries)
                = Inl (Wrap err ''intersecting sync map and deleted files''))
       \<and> (fst (NewItem WorkingDir Rel PathMatch a e builds insecureRegistries) = Inr None
          \<longrightarrow> \<not> isl (intersect Rel PathMatch (Workspace a) containerWd (manual_rules a)
                       (Added e @ Modified e))
              \<and> \<not> isl (intersect Rel PathMatch (Workspace a) containerWd (manual_rules a)
                         (Deleted e)))"
proof (intro conjI impI)
  assume "intersect Rel PathMatch (Workspace a) containerWd (manual_rules a)
            (Added e @ Modified e) = Inr None"
  then show "snd (NewItem WorkingDir Rel PathMatch a e builds insecureRegistries)
                = [LatestTagCall (ImageName a), WorkingDirCall tag,
                   IntersectCall (Added e @ Modified e), IntersectCall (Deleted e)]"
    by (rule NewItem_both_run [where WorkingDir = WorkingDir, OF assms])
next
  assume "intersect Rel PathMatch (Workspace a) containerWd (manual_rules a)
            (Added e @ Modified e) = Inr None
          \<and> intersect Rel PathMatch (Workspace a) containerWd (manual_rules a) (Deleted e)
              = Inl err"
  then have copy: "intersect Rel PathMatch (Workspace a) containerWd (manual_rules a)
            (Added e @ Modified e) = Inr None"
    and delete: "intersect Rel PathMatch (Workspace a) containerWd (manual_rules a) (Deleted e)
              = Inl err"
    by simp_all
  from NewItem_delete_error [where WorkingDir = WorkingDir, OF assms copy delete]
  show "fst (NewItem WorkingDir Rel PathMatch a e builds insecureRegistries)
          = Inl (Wrap err ''intersecting sync map and deleted files'')"
    by simp
next
  assume s: "fst (NewItem WorkingDir Rel PathMatch a e builds insecureRegistries) = Inr None"
  show "\<not> isl (intersect Rel PathMatch (Workspace a) containerWd (manual_rules a)
                 (Added e @ Modified e))"
    by (rule NewItem_signal_no_error(1) [where WorkingDir = WorkingDir, OF assms s])
  show "\<not> isl (intersect Rel PathMatch (Workspace a) containerWd (manual_rules a) (Deleted e))"
    by (rule NewItem_signal_no_error(2) [where WorkingDir = WorkingDir, OF assms s])
qed

theorem C10_errors_checked_before_signal_witness:
  "snd (NewItem stub_WorkingDir stub_Rel stub_PathMatch stub_artifact stub_events_miss stub_builds
          Map.empty)
     = [LatestTagCall ''node-example'', WorkingDirCall ''node-example:v1'',
        IntersectCall [''node/README.md''], IntersectCall [''/tmp/gone.js'']]
   \<and> fst (NewItem stub_WorkingDir stub_Rel stub_PathMatch stub_artifact stub_events_miss
           stub_builds Map.empty)
       = Inl (Wrap (Wrap (New ''Rel: can't make /tmp/gone.js relative to node'')
                      ''changed file /tmp/gone.js can't be found relative to context node'')
                ''intersecting sync map and deleted files'')"
proof -
  let ?err = "Wrap (New ''Rel: can't make /tmp/gone.js relative to node'')
                ''changed file /tmp/gone.js can't be found relative to context node''"
  have tagne: "''node-example:v1'' \<noteq> []"
    by simp
  note c10 = C10_errors_checked_before_signal
    [where WorkingDir = stub_WorkingDir and Rel = stub_Rel and PathMatch = stub_PathMatch
       and err = ?err,
     OF stub_past_guards_miss stub_latestTag tagne stub_WorkingDir_v1 [of Map.empty]]
  have ws: "Workspace stub_artifact = ''node''" and im: "ImageName stub_artifact = ''node-example''"
    by (simp_all add: stub_artifact_def)
  have ev: "Added stub_events_miss @ Modified stub_events_miss = [''node/README.md'']"
    "Deleted stub_events_miss = [''/tmp/gone.js'']"
    by (simp_all add: stub_events_miss_def)
  have copy: "intersect stub_Rel stub_PathMatch (Workspace stub_artifact) ''/home/app''
                (manual_rules stub_artifact) (Added stub_events_miss @ Modified stub_events_miss)
              = Inr None"
    unfolding ws ev stub_manual_rules by (rule stub_intersect_readme)
  have delete: "intersect stub_Rel stub_PathMatch (Workspace stub_artifact) ''/home/app''
                (manual_rules stub_artifact) (Deleted stub_events_miss) = Inl ?err"
    unfolding ws ev stub_manual_rules by (rule stub_intersect_gone)
  from mp [OF conjunct1 [OF c10] copy]
  have A: "snd (NewItem stub_WorkingDir stub_Rel stub_PathMatch stub_artifact stub_events_miss
                  stub_builds Map.empty)
     = [LatestTagCall ''node-example'', WorkingDirCall ''node-example:v1'',
        IntersectCall [''node/README.md''], IntersectCall [''/tmp/gone.js'']]"
    unfolding im ev .
  from copy delete have "intersect stub_Rel stub_PathMatch (Workspace stub_artifact) ''/home/app''
                (manual_rules stub_artifact) (Added stub_events_miss @ Modified stub_events_miss)
              = Inr None
          \<and> intersect stub_Rel stub_PathMatch (Workspace stub_artifact) ''/home/app''
                (manual_rules stub_artifact) (Deleted stub_events_miss) = Inl ?err"
    by (rule conjI)
  from mp [OF conjunct1 [OF conjunct2 [OF c10]] this] A show ?thesis
    by (intro conjI)
qed

section \<open>The plan executor\<close>

text \<open>
  Claim C8. For every non-empty sync map, target image and namespace list: if every
  namespace, pod and container has been visited and the counter of executed operations is
  zero (no container's image equals the target, or the command generator returns no
  operation for every container that matches), \<open>Perform\<close> returns the error
  \<open>didn't sync any files\<close>, although no operation failed; the state of the
  containers is unchanged.
\<close>

theorem C8_no_operation_is_an_error:
  assumes "dom files \<noteq> {}"
  shows "(no_operations listPods img files cmdFn namespaces
          \<longrightarrow> Perform (Inr listPods) RunCmdOut img files cmdFn namespaces w
                = (Some (New ''didn't sync any files''), w))
       \<and> (namespaces_loop listPods RunCmdOut img files cmdFn namespaces 0 w = (None, 0, w')
          \<longrightarrow> Perform (Inr listPods) RunCmdOut img files cmdFn namespaces w
                = (Some (New ''didn't sync any files''), w'))"
proof (intro conjI impI)
  assume "no_operations listPods img files cmdFn namespaces"
  from no_operations_generated [OF this]
  have listed: "list_all (\<lambda>ns. \<not> isl (listPods ns)) namespaces"
    and none: "generated_ops listPods img files cmdFn namespaces = []"
    by simp_all
  have "run_cmds RunCmdOut (generated_ops listPods img files cmdFn namespaces) 0 w = (None, 0, w)"
    by (simp add: none)
  from Perform_all_listed [OF assms listed this]
  show "Perform (Inr listPods) RunCmdOut img files cmdFn namespaces w
          = (Some (New ''didn't sync any files''), w)"
    by simp
next
  assume "namespaces_loop listPods RunCmdOut img files cmdFn namespaces 0 w = (None, 0, w')"
  with assms show "Perform (Inr listPods) RunCmdOut img files cmdFn namespaces w
          = (Some (New ''didn't sync any files''), w')"
    by (simp add: Perform_def)
qed

theorem C8_no_operation_is_an_error_witness:
  "Perform (Inr stub_pods) stub_RunCmdOut ''node-example:v9'' stub_files (stub_cmdFn [''copy''])
     [''default'', ''empty''] []
     = (Some (New ''didn't sync any files''), [])
   \<and> Perform (Inr stub_pods) stub_RunCmdOut ''node-example:v1'' stub_files (stub_cmdFn [])
       [''default'', ''empty''] []
     = (Some (New ''didn't sync any files''), [])
   \<and> Perform (Inr stub_pods) stub_RunCmdOut ''node-example:v1'' stub_files (stub_cmdFn [''copy''])
       [] []
     = (Some (New ''didn't sync any files''), [])"
proof -
  have files: "dom stub_files \<noteq> {}"
    by (simp add: stub_files_def)
  note c8 = C8_no_operation_is_an_error [OF files, where RunCmdOut = stub_RunCmdOut and w = "[]"]
  have a: "no_operations stub_pods ''node-example:v9'' stub_files (stub_cmdFn [''copy''])
             [''default'', ''empty'']"
    by code_simp
  have b: "no_operations stub_pods ''node-example:v1'' stub_files (stub_cmdFn [])
             [''default'', ''empty'']"
    by code_simp
  have c: "namespaces_loop stub_pods stub_RunCmdOut ''node-example:v1'' stub_files
             (stub_cmdFn [''copy'']) [] 0 [] = (None, 0, [])"
    by simp
  show ?thesis
    by (intro conjI mp [OF conjunct1 [OF c8] a] mp [OF conjunct1 [OF c8] b]
          mp [OF conjunct2 [OF c8] c])
qed

text \<open>
  Claim C9. \<open>Perform\<close> executes the generated operations strictly in order, and the
  first operation that fails aborts the whole call: the error of that operation is
  returned as it is, no later operation is run, and the operations already executed, on
  this container or on earlier containers, pods or namespaces, are not undone: the state
  returned is the one the executed operations left. When every namespace is listed and
  every operation succeeds, all of them have run, in order.
\<close>

theorem C9_first_failure_aborts:
  assumes "dom files \<noteq> {}"
  shows "(generated_ops listPods img files cmdFn namespaces = pre @ c # post
            \<and> succeed_in_order RunCmdOut pre w = Some w1
            \<and> RunCmdOut c w1 = (Some err, w2)
          \<longrightarrow> Perform (Inr listPods) RunCmdOut img files cmdFn namespaces w = (Some err, w2))
       \<and> (list_all (\<lambda>ns. \<not> isl (listPods ns)) namespaces
            \<and> generated_ops listPods img files cmdFn namespaces \<noteq> []
            \<and> succeed_in_order RunCmdOut (generated_ops listPods img files cmdFn namespaces) w
                = Some w'
          \<longrightarrow> Perform (Inr listPods) RunCmdOut img files cmdFn namespaces w = (None, w'))"
proof (intro conjI impI)
  assume "generated_ops listPods img files cmdFn namespaces = pre @ c # post
            \<and> succeed_in_order RunCmdOut pre w = Some w1
            \<and> RunCmdOut c w1 = (Some err, w2)"
  then have ops: "generated_ops listPods img files cmdFn namespaces = pre @ c # post"
    and pre: "succeed_in_order RunCmdOut pre w = Some w1"
    and c: "RunCmdOut c w1 = (Some err, w2)"
    by simp_all
  have "run_cmds RunCmdOut (generated_ops listPods img files cmdFn namespaces) 0 w
          = (Some err, 0 + length pre, w2)"
    unfolding ops by (rule run_cmds_first_failure [OF pre c])
  from Perform_runs_generated [OF assms this]
  show "Perform (Inr listPods) RunCmdOut img files cmdFn namespaces w = (Some err, w2)" .
next
  let ?ops = "generated_ops listPods img files cmdFn namespaces"
  assume "list_all (\<lambda>ns. \<not> isl (listPods ns)) namespaces \<and> ?ops \<noteq> []
            \<and> succeed_in_order RunCmdOut ?ops w = Some w'"
  then have listed: "list_all (\<lambda>ns. \<not> isl (listPods ns)) namespaces"
    and some: "?ops \<noteq> []"
    and all: "succeed_in_order RunCmdOut ?ops w = Some w'"
    by simp_all
  have "run_cmds RunCmdOut ?ops 0 w = (None, 0 + length ?ops, w')"
    by (rule run_cmds_succeed [OF all])
  from Perform_all_listed [OF assms listed this] some
  show "Perform (Inr listPods) RunCmdOut img files cmdFn namespaces w = (None, w')"
    by simp
qed

theorem C9_first_failure_aborts_witness:
  "Perform (Inr stub_pods) stub_RunCmdOut ''node-example:v1'' stub_files
     (stub_cmdFn [''copy a'', ''fail'', ''copy b'']) [''default'', ''default''] []
     = (Some (New ''exit status 1''), [''copy a'', ''fail''])
   \<and> Perform (Inr stub_pods) stub_RunCmdOut ''node-example:v1'' stub_files
       (stub_cmdFn [''copy a'', ''copy b'']) [''default'', ''default''] []
     = (None, [''copy a'', ''copy b'', ''copy a'', ''copy b''])"
proof -
  have files: "dom stub_files \<noteq> {}"
    by (simp add: stub_files_def)
  let ?fn = "stub_cmdFn [''copy a'', ''fail'', ''copy b'']"
  let ?post = "[''copy b'', ''copy a'', ''fail'', ''copy b'']"
  have ops: "generated_ops stub_pods ''node-example:v1'' stub_files ?fn [''default'', ''default'']
               = [''copy a''] @ ''fail'' # ?post"
    by code_simp
  have pre: "succeed_in_order stub_RunCmdOut [''copy a''] [] = Some [''copy a'']"
    by code_simp
  have c: "stub_RunCmdOut ''fail'' [''copy a''] = (Some (New ''exit status 1''), [''copy a'', ''fail''])"
    by code_simp
  from ops pre c have h1:
    "generated_ops stub_pods ''node-example:v1'' stub_files ?fn [''default'', ''default'']
       = [''copy a''] @ ''fail'' # ?post
     \<and> succeed_in_order stub_RunCmdOut [''copy a''] [] = Some [''copy a'']
     \<and> stub_RunCmdOut ''fail'' [''copy a''] = (Some (New ''exit status 1''), [''copy a'', ''fail''])"
    by (intro conjI)
  have A: "Perform (Inr stub_pods) stub_RunCmdOut ''node-example:v1'' stub_files ?fn
             [''default'', ''default''] []
           = (Some (New ''exit status 1''), [''copy a'', ''fail''])"
    by (rule mp [OF conjunct1 [OF C9_first_failure_aborts [OF files]] h1])
  let ?fn2 = "stub_cmdFn [''copy a'', ''copy b'']"
  let ?ops2 = "generated_ops stub_pods ''node-example:v1'' stub_files ?fn2 [''default'', ''default'']"
  have listed: "list_all (\<lambda>ns. \<not> isl (stub_pods ns)) [''default'', ''default'']"
    by code_simp
  have some: "?ops2 \<noteq> []"
    by code_simp
  have all: "succeed_in_order stub_RunCmdOut ?ops2 []
               = Some [''copy a'', ''copy b'', ''copy a'', ''copy b'']"
    by code_simp
  from listed some all have h2:
    "list_all (\<lambda>ns. \<not> isl (stub_pods ns)) [''default'', ''default''] \<and> ?ops2 \<noteq> []
     \<and> succeed_in_order stub_RunCmdOut ?ops2 [] = Some [''copy a'', ''copy b'', ''copy a'', ''copy b'']"
    by (intro conjI)
  have B: "Perform (Inr stub_pods) stub_RunCmdOut ''node-example:v1'' stub_files ?fn2
             [''default'', ''default''] []
           = (None, [''copy a'', ''copy b'', ''copy a'', ''copy b''])"
    by (rule mp [OF conjunct2 [OF C9_first_failure_aborts [OF files]] h2])
  from A B show ?thesis
    by (rule conjI)
qed


end
